theory Spec2Isabelle
  imports Main "HOL-Library.Product_Lexorder" "HOL-Library.AList"
begin

section \<open>JavaScript values and strings\<close>

text \<open>
  The values that travel through the proxy (request bodies parsed by
  \<^verbatim>\<open>express.json\<close>, upstream payloads parsed by axios, cached payloads) are JSON
  values. Numbers are restricted to integers: the code below only ever tests whether a
  payload is truthy and passes it on.
\<close>

datatype json =
    JNull
  | JBool bool
  | JNum int
  | JStr string
  | JArr "json list"
  | JObj "(string \<times> json) list"

text \<open>JavaScript truthiness, as used by \<^verbatim>\<open>if (cachedData)\<close>.\<close>

fun truthy :: "json \<Rightarrow> bool" where
  "truthy JNull = False"
| "truthy (JBool b) = b"
| "truthy (JNum n) = (n \<noteq> 0)"
| "truthy (JStr s) = (s \<noteq> [])"
| "truthy (JArr xs) = True"
| "truthy (JObj kvs) = True"

text \<open>\<^verbatim>\<open>String.prototype.startsWith\<close> and \<^verbatim>\<open>String.prototype.includes\<close>.\<close>

definition startsWith :: "string \<Rightarrow> string \<Rightarrow> bool" where
  "startsWith s p = (take (length p) s = p)"

fun str_includes :: "string \<Rightarrow> string \<Rightarrow> bool" where
  "str_includes [] sub = (sub = [])"
| "str_includes (c # cs) sub = (startsWith (c # cs) sub \<or> str_includes cs sub)"

text \<open>A thrown \<^verbatim>\<open>Error\<close> is represented by its message.\<close>

type_synonym exn = string

section \<open>Requests and responses\<close>

text \<open>
  The part of the Express request that the cache middleware and the proxy handler read.
  \<open>req_user\<close> is set by \<^verbatim>\<open>authenticate\<close> (the caller's e-mail). The property
  \<^verbatim>\<open>req.accessToken\<close> is written by \<^verbatim>\<open>authMiddleware\<close> only and read right after
  it, so it is a local value of the handler below and no field here.
\<close>

record request =
  req_method :: string
  originalUrl :: string
  req_path :: string
  req_headers :: "(string \<times> string) list"
  req_body :: json
  req_user :: "string option"

text \<open>What has been sent to the client: nothing yet, a JSON body, or a piped stream.\<close>

datatype sent = Unsent | SentJson json | SentStream json

text \<open>
  The Express response. \<open>saveToCache\<close> is the closure that the cache middleware may
  attach; the closure captures the request it was created for.
\<close>

record response =
  res_status :: nat
  res_headers :: "(string \<times> string) list"
  res_sent :: sent
  saveToCache :: "request option"

definition fresh_response :: response where
  "fresh_response = \<lparr>res_status = 200, res_headers = [], res_sent = Unsent, saveToCache = None\<rparr>"

definition setHeader :: "string \<Rightarrow> string \<Rightarrow> response \<Rightarrow> response" where
  "setHeader k v res = res\<lparr>res_headers := AList.update k v (res_headers res)\<rparr>"

definition res_json :: "json \<Rightarrow> response \<Rightarrow> response" where
  "res_json v res = res\<lparr>res_sent := SentJson v\<rparr>"

definition headersSent :: "response \<Rightarrow> bool" where
  "headersSent res = (res_sent res \<noteq> Unsent)"

section \<open>The cache manager as the middleware sees it\<close>

text \<open>
  \<^verbatim>\<open>cacheManager.load(url, method, body)\<close> and
  \<^verbatim>\<open>cacheManager.save(url, data, method, body)\<close> are asynchronous calls on a
  shared object: each takes the cache state \<open>'c\<close>, either returns a value or throws, and
  leaves a new state behind.
\<close>

record 'c cache_manager =
  cm_load :: "string \<Rightarrow> string \<Rightarrow> json \<Rightarrow> 'c \<Rightarrow> (exn + json) \<times> 'c"
  cm_save :: "string \<Rightarrow> json \<Rightarrow> string \<Rightarrow> json \<Rightarrow> 'c \<Rightarrow> (exn + json) \<times> 'c"

section \<open>middleware/cache.js\<close>

text \<open>
  \<^verbatim>\<open>req.headers['content-type']?.includes('application/json') || ...\<close>:
  a missing header makes the optional chain undefined, which is falsy.
\<close>

definition header_includes :: "request \<Rightarrow> string \<Rightarrow> string \<Rightarrow> bool" where
  "header_includes req name sub =
     (case map_of (req_headers req) name of None \<Rightarrow> False | Some v \<Rightarrow> str_includes v sub)"

definition isApiRequest :: "request \<Rightarrow> bool" where
  "isApiRequest req =
     (header_includes req ''content-type'' ''application/json'' \<or>
      header_includes req ''accept'' ''application/json'' \<or>
      str_includes (originalUrl req) ''/api/'' \<or>
      str_includes (originalUrl req) ''/alldata/'')"

text \<open>
  The outcome of running the middleware: whether \<^verbatim>\<open>next()\<close> was called, the
  response object, the cache state, and what was written to the console.
\<close>

record 'c mw_outcome =
  mw_next :: bool
  mw_res :: response
  mw_cache :: 'c
  mw_console :: "string list"

definition cacheMiddleware ::
  "'c cache_manager \<Rightarrow> request \<Rightarrow> response \<Rightarrow> 'c \<Rightarrow> 'c mw_outcome" where
  "cacheMiddleware cm req res c =
     (if req_method req \<notin> set [''GET'', ''POST''] \<or> \<not> isApiRequest req
      then \<lparr>mw_next = True, mw_res = res, mw_cache = c, mw_console = []\<rparr>
      else
        (case cm_load cm (originalUrl req) (req_method req) (req_body req) c of
           (Inr cachedData, c') \<Rightarrow>
             if truthy cachedData
             then \<lparr>mw_next = False,
                   mw_res = res_json cachedData
                     (setHeader ''Content-Type'' ''application/json''
                       (setHeader ''X-Cache-From'' ''SQLite-Index''
                         (setHeader ''X-Cache'' ''HIT'' res))),
                   mw_cache = c',
                   mw_console = [''Cache hit for '' @ req_method req @ '': '' @ originalUrl req]\<rparr>
             else \<lparr>mw_next = True, mw_res = res\<lparr>saveToCache := Some req\<rparr>,
                   mw_cache = c', mw_console = []\<rparr>
         | (Inl error, c') \<Rightarrow>
             \<lparr>mw_next = True, mw_res = res\<lparr>saveToCache := Some req\<rparr>,
              mw_cache = c', mw_console = [''Cache middleware error: '' @ error]\<rparr>))"

text \<open>
  Calling the attached closure \<^verbatim>\<open>res.saveToCache(data)\<close>: the closure reads the
  request it captured. The value that \<^verbatim>\<open>save\<close> returns is ignored; a throw is
  caught and logged.
\<close>

definition call_saveToCache ::
  "'c cache_manager \<Rightarrow> request \<Rightarrow> json \<Rightarrow> response \<Rightarrow> 'c \<Rightarrow> response \<times> 'c \<times> string list" where
  "call_saveToCache cm req data res c =
     (case cm_save cm (originalUrl req) data (req_method req) (req_body req) c of
        (Inr _, c') \<Rightarrow> (setHeader ''X-Cache'' ''MISS'' res, c', [])
      | (Inl error, c') \<Rightarrow> (res, c', [''Failed to save to cache: '' @ error]))"

text \<open>
  The start-up block of the module: \<^verbatim>\<open>initializeDatabase\<close> is awaited inside a
  \<^verbatim>\<open>try\<close>/\<^verbatim>\<open>catch\<close> whose handler writes to the console. The result is the console output; the
  block neither rethrows nor exits the process.
\<close>

definition cache_startup :: "exn option \<Rightarrow> string list" where
  "cache_startup init_failure =
     (case init_failure of
        None \<Rightarrow> [''Cache database initialized successfully'']
      | Some error \<Rightarrow> [''Failed to initialize cache database: '' @ error])"

section \<open>server.js: start-up\<close>

text \<open>
  On loading \<^verbatim>\<open>server.js\<close> its imports are evaluated first. The module
  \<^verbatim>\<open>middleware/cache.js\<close> constructs the cache manager at module level
  (\<^verbatim>\<open>new CacheManager(config.paths.cache)\<close>), outside any \<^verbatim>\<open>try\<close>/\<^verbatim>\<open>catch\<close>: a
  throw of the constructor is uncaught and ends the process with exit code 1 before
  anything else runs. Otherwise the cache start-up block above is started, and
  \<^verbatim>\<open>server.js\<close> runs: \<^verbatim>\<open>validateConfig()\<close> throwing ends the process with exit
  code 1, before the awaited initialization of the cache can report anything; otherwise
  the module goes on to \<^verbatim>\<open>app.listen\<close>, and the cache start-up block reports on the
  console. The output of the logger is left out.
\<close>

datatype process_state = Exited nat | Listening

record startup_outcome =
  st_process :: process_state
  st_console :: "string list"

definition validateConfig :: "string \<Rightarrow> string \<Rightarrow> exn + bool" where
  "validateConfig email password =
     (let errors = (if email = [] then [''ALLDATA_EMAIL is required''] else []) @
                   (if password = [] then [''ALLDATA_PASSWORD is required''] else [])
      in if length errors > 0
         then Inl (''Configuration errors: '' @ concat (map (\<lambda>e. e @ '', '') (butlast errors)) @ last errors)
         else Inr True)"

definition server_startup ::
  "exn option \<Rightarrow> string \<Rightarrow> string \<Rightarrow> exn option \<Rightarrow> startup_outcome" where
  "server_startup ctor_failure email password init_failure =
     (case ctor_failure of
        Some error \<Rightarrow> \<lparr>st_process = Exited 1, st_console = []\<rparr>
      | None \<Rightarrow>
          (case validateConfig email password of
             Inl error \<Rightarrow> \<lparr>st_process = Exited 1, st_console = []\<rparr>
           | Inr _ \<Rightarrow> \<lparr>st_process = Listening, st_console = cache_startup init_failure\<rparr>))"

section \<open>server.js: the proxy handler\<close>

text \<open>
  What \<^verbatim>\<open>authenticate\<close> did with the request: called \<^verbatim>\<open>next()\<close> after setting
  \<^verbatim>\<open>req.user\<close>, called \<^verbatim>\<open>next(err)\<close>, or answered the request itself with a
  status and a JSON body (and never called \<^verbatim>\<open>next\<close>).
\<close>

datatype auth_result = AuthOk string | AuthNextErr exn | AuthRejected nat json

text \<open>The upstream answer as axios returns it (\<^verbatim>\<open>validateStatus: () => true\<close>).\<close>

record upstream_response =
  up_status :: nat
  up_headers :: "(string \<times> string) list"
  up_data :: json
  up_pipeable :: bool

text \<open>
  The helpers of \<^verbatim>\<open>utils/assets.js\<close> and the file system calls of the font branch
  are parameters: \<open>ensure_dir\<close> is the outcome of creating the directory of a font
  file when it does not exist yet.
\<close>

record proxy_env =
  isFontFile :: "string \<Rightarrow> bool"
  normalizeAssetPath :: "string \<Rightarrow> string"
  getContentType :: "string \<Rightarrow> string"
  ensure_dir :: "string \<Rightarrow> exn option"

record 'c px_outcome =
  px_res :: response
  px_cache :: 'c
  px_console :: "string list"
  px_font_saved :: "string option"

definition lower_char :: "char \<Rightarrow> char" where
  "lower_char ch = (let n = (of_char ch :: nat) in if 65 \<le> n \<and> n \<le> 90 then char_of (n + 32) else ch)"

definition toLowerCase :: "string \<Rightarrow> string" where
  "toLowerCase s = map lower_char s"

definition forward_headers :: "(string \<times> string) list \<Rightarrow> response \<Rightarrow> response" where
  "forward_headers hs res =
     fold (\<lambda>(k, v) r.
             if toLowerCase k \<notin> set [''content-encoding'', ''content-length'', ''transfer-encoding'']
             then setHeader k v r else r) hs res"

definition proxy_error :: "exn \<Rightarrow> response \<Rightarrow> response" where
  "proxy_error error res =
     res_json (JObj [(''error'', JStr ''Proxy error''), (''message'', JStr error)])
       (res\<lparr>res_status := 500\<rparr>)"

text \<open>
  The body of \<^verbatim>\<open>proxyRequest\<close> from the upstream call on, shared by both revisions of
  the server: status and headers are forwarded, then the font branch, the API branch
  (the only call of \<^verbatim>\<open>res.saveToCache\<close>) or the fallback branch answers. A throw
  inside the \<^verbatim>\<open>try\<close> ends in the 500 answer of the \<^verbatim>\<open>catch\<close>.
\<close>

definition forward_upstream ::
  "'c cache_manager \<Rightarrow> proxy_env \<Rightarrow> exn + upstream_response \<Rightarrow> request \<Rightarrow> response \<Rightarrow> 'c
     \<Rightarrow> 'c px_outcome" where
  "forward_upstream cm env up req res c =
     (case req_user req of
        None \<Rightarrow> \<lparr>px_res = proxy_error ''Cannot read properties of undefined'' res,
                 px_cache = c, px_console = [], px_font_saved = None\<rparr>
      | Some email \<Rightarrow>
     (case up of
        Inl error \<Rightarrow> \<lparr>px_res = proxy_error error res, px_cache = c,
                       px_console = [], px_font_saved = None\<rparr>
      | Inr response \<Rightarrow>
          (let res1 = forward_headers (up_headers response) (res\<lparr>res_status := up_status response\<rparr>)
           in if isFontFile env (req_path req) \<and> up_status response = 200
              then (let normalizedPath = normalizeAssetPath env (req_path req)
                    in case ensure_dir env normalizedPath of
                         Some error \<Rightarrow> \<lparr>px_res = proxy_error error res1, px_cache = c,
                                          px_console = [], px_font_saved = None\<rparr>
                       | None \<Rightarrow>
                           \<lparr>px_res =
                              (setHeader ''Access-Control-Allow-Origin'' ''*''
                                (setHeader ''Cache-Control'' ''public, max-age=31536000''
                                  (setHeader ''Content-Type'' (getContentType env normalizedPath) res1)))
                                \<lparr>res_sent := SentStream (up_data response)\<rparr>,
                            px_cache = c, px_console = [], px_font_saved = Some normalizedPath\<rparr>)
              else if isApiRequest req \<and> up_status response = 200 \<and> saveToCache res1 \<noteq> None
              then (case saveToCache res1 of
                      Some captured \<Rightarrow>
                        (case call_saveToCache cm captured (up_data response) res1 c of
                           (res2, c', console) \<Rightarrow>
                             \<lparr>px_res = res_json (up_data response) res2, px_cache = c',
                              px_console = console, px_font_saved = None\<rparr>)
                    | None \<Rightarrow> \<lparr>px_res = res1, px_cache = c, px_console = [], px_font_saved = None\<rparr>)
              else if truthy (up_data response) \<and> up_pipeable response
              then \<lparr>px_res = res1\<lparr>res_sent := SentStream (up_data response)\<rparr>, px_cache = c,
                    px_console = [], px_font_saved = None\<rparr>
              else \<lparr>px_res = res_json (up_data response) res1, px_cache = c,
                    px_console = [], px_font_saved = None\<rparr>)))"

text \<open>
  The steps before the upstream call: \<^verbatim>\<open>authenticate\<close>, then \<^verbatim>\<open>authMiddleware\<close>
  (its token manager either yields a token or throws; a throw is answered with 500 and
  leaves \<^verbatim>\<open>req.accessToken\<close> undefined, an empty token is falsy as well, and in both
  cases the handler returns). A handler that returns without answering leaves the
  response unsent.
\<close>

definition auth_failed :: "exn \<Rightarrow> response \<Rightarrow> response" where
  "auth_failed error res =
     res_json (JObj [(''error'', JStr ''Authentication failed''), (''details'', JStr error)])
       (res\<lparr>res_status := 500\<rparr>)"

definition stopped :: "response \<Rightarrow> 'c \<Rightarrow> string list \<Rightarrow> 'c px_outcome" where
  "stopped res c console = \<lparr>px_res = res, px_cache = c, px_console = console, px_font_saved = None\<rparr>"

text \<open>
  \<^verbatim>\<open>proxyRequest\<close> of \<^verbatim>\<open>src/server.js\<close>: the cache middleware runs inside the
  handler, after both authentication steps.
\<close>

definition proxyRequest ::
  "'c cache_manager \<Rightarrow> proxy_env \<Rightarrow> auth_result \<Rightarrow> exn + string \<Rightarrow> exn + upstream_response
     \<Rightarrow> request \<Rightarrow> response \<Rightarrow> 'c \<Rightarrow> 'c px_outcome" where
  "proxyRequest cm env auth token up req res c =
     (case auth of
        AuthRejected status body \<Rightarrow> stopped (res_json body (res\<lparr>res_status := status\<rparr>)) c []
      | AuthNextErr err \<Rightarrow> stopped res c []
      | AuthOk email \<Rightarrow>
          (case token of
             Inl error \<Rightarrow> stopped (auth_failed error res) c [''Authentication error: '' @ error]
           | Inr tok \<Rightarrow>
               if tok = [] then stopped res c []
               else
                 (let req1 = req\<lparr>req_user := Some email\<rparr>;
                      m = cacheMiddleware cm req1 res c
                  in if \<not> mw_next m \<or> headersSent (mw_res m)
                     then stopped (mw_res m) (mw_cache m) (mw_console m)
                     else (let out = forward_upstream cm env up req1 (mw_res m) (mw_cache m)
                           in out\<lparr>px_console := mw_console m @ px_console out\<rparr>))))"

text \<open>
  The earlier revision of the server: \<^verbatim>\<open>app.use(cacheMiddleware)\<close> runs before the
  request handler, and \<^verbatim>\<open>proxyRequest\<close> itself only authenticates and forwards.
  \<open>proxied_v1\<close> is the chain for a request that the handler passes to
  \<^verbatim>\<open>proxyRequest\<close>.
\<close>

definition proxyRequest_v1 ::
  "'c cache_manager \<Rightarrow> proxy_env \<Rightarrow> auth_result \<Rightarrow> exn + string \<Rightarrow> exn + upstream_response
     \<Rightarrow> request \<Rightarrow> response \<Rightarrow> 'c \<Rightarrow> 'c px_outcome" where
  "proxyRequest_v1 cm env auth token up req res c =
     (case auth of
        AuthRejected status body \<Rightarrow> stopped (res_json body (res\<lparr>res_status := status\<rparr>)) c []
      | AuthNextErr err \<Rightarrow> stopped res c []
      | AuthOk email \<Rightarrow>
          (case token of
             Inl error \<Rightarrow> stopped (auth_failed error res) c [''Authentication error: '' @ error]
           | Inr tok \<Rightarrow>
               if tok = [] then stopped res c []
               else forward_upstream cm env up (req\<lparr>req_user := Some email\<rparr>) res c))"

definition proxied_v1 ::
  "'c cache_manager \<Rightarrow> proxy_env \<Rightarrow> auth_result \<Rightarrow> exn + string \<Rightarrow> exn + upstream_response
     \<Rightarrow> request \<Rightarrow> response \<Rightarrow> 'c \<Rightarrow> 'c px_outcome" where
  "proxied_v1 cm env auth token up req res c =
     (let m = cacheMiddleware cm req res c
      in if \<not> mw_next m then stopped (mw_res m) (mw_cache m) (mw_console m)
         else (let out = proxyRequest_v1 cm env auth token up req (mw_res m) (mw_cache m)
               in out\<lparr>px_console := mw_console m @ px_console out\<rparr>))"

section \<open>routes/cache.js\<close>

text \<open>
  The administrative route \<^verbatim>\<open>POST /revalidate\<close>: a missing or empty
  \<^verbatim>\<open>path\<close> is answered with 400 before the cache manager is reached; a throw of
  \<^verbatim>\<open>revalidatePath\<close> is answered with 500. The body field is a JSON string or absent.
\<close>

definition route_revalidate ::
  "(string \<Rightarrow> 'c \<Rightarrow> (exn + json) \<times> 'c) \<Rightarrow> string option \<Rightarrow> response \<Rightarrow> 'c \<Rightarrow> response \<times> 'c" where
  "route_revalidate revalidate path res c =
     (case path of
        None \<Rightarrow> (res_json (JObj [(''error'', JStr ''Path is required'')]) (res\<lparr>res_status := 400\<rparr>), c)
      | Some p \<Rightarrow>
          if p = []
          then (res_json (JObj [(''error'', JStr ''Path is required'')]) (res\<lparr>res_status := 400\<rparr>), c)
          else (case revalidate p c of
                  (Inr result, c') \<Rightarrow> (res_json result res, c')
                | (Inl error, c') \<Rightarrow>
                    (res_json (JObj [(''error'', JStr error)]) (res\<lparr>res_status := 500\<rparr>), c')))"

section \<open>The cache manager\<close>

text \<open>
  Modelled from the spec: \<^verbatim>\<open>cacheManager.js\<close> (the class behind
  \<^verbatim>\<open>cacheManager.load\<close>, \<^verbatim>\<open>save\<close>, \<^verbatim>\<open>exists\<close>, \<^verbatim>\<open>revalidatePath\<close>,
  \<^verbatim>\<open>clearAll\<close> and \<^verbatim>\<open>cleanup\<close>) is not among the sources; only its callers are.
  Everything in this section follows sections 3, 4 and 7 of the specification.
\<close>

text \<open>
  Modelled from the spec: the row of the Metadata Index (section 3, CacheEntry), the
  missing table of \<^verbatim>\<open>cacheManager.js\<close>. Sizes are byte counts and timestamps are
  seconds, both natural numbers.
\<close>

record cache_entry =
  rawUrl :: string
  normalizedUrl :: string
  http_method :: string
  bodyFingerprint :: "string option"
  location :: string
  sizeBytes :: nat
  createdAt :: nat
  accessedAt :: nat
  accessCount :: nat

text \<open>
  Modelled from the spec: the serialized entry that the Blob Store writes (section 4.2):
  original URL, normalized URL, method, body, timestamp, payload.
\<close>

record blob =
  blob_url :: string
  blob_normalizedUrl :: string
  blob_method :: string
  blob_body :: json
  blob_timestamp :: nat
  blob_payload :: json

text \<open>
  Modelled from the spec: the on-disk store is the index (a table of rows, in
  insertion order) and the blobs by location. \<open>disk_full\<close> and \<open>denied\<close> are the two
  write failures that section 7 names (disk full, permission denied on a path);
  \<open>cache_log\<close> collects what the cache manager logs.
\<close>

record cache_state =
  index :: "cache_entry list"
  blobs :: "string \<rightharpoonup> blob"
  disk_full :: bool
  denied :: "string \<Rightarrow> bool"
  cache_log :: "string list"

text \<open>
  Modelled from the spec: the Key Deriver (section 4.1). URL normalization, the digest
  (MD5-strength, used for key compression only), the representation of a request body,
  the sanitizing of a file name stem and the byte length of a serialized payload are
  parameters.
\<close>

record key_deriver =
  normalizeUrl :: "string \<Rightarrow> string"
  digest :: "string \<Rightarrow> string"
  bodyRepresentation :: "json \<Rightarrow> string"
  sanitize :: "string \<Rightarrow> string"
  payloadSize :: "json \<Rightarrow> nat"

text \<open>
  Modelled from the spec: the body fingerprint of the missing key derivation; the body
  takes part in the identity only for a mutating method (POST).
\<close>

definition fingerprint :: "key_deriver \<Rightarrow> string \<Rightarrow> json \<Rightarrow> string option" where
  "fingerprint kd m body = (if m = ''POST'' then Some (bodyRepresentation kd body) else None)"

text \<open>
  Modelled from the spec: the identity of an entry, missing with the index, is the tuple
  (normalizedUrl, method, bodyFingerprint).
\<close>

type_synonym identity = "string \<times> string \<times> string option"

definition identity :: "cache_entry \<Rightarrow> identity" where
  "identity r = (normalizedUrl r, http_method r, bodyFingerprint r)"

text \<open>
  Modelled from the spec: the identity that a request (url, method, body) is looked up
  and stored under, after Normalize.
\<close>

definition request_identity :: "key_deriver \<Rightarrow> string \<Rightarrow> string \<Rightarrow> json \<Rightarrow> identity" where
  "request_identity kd url m body = (normalizeUrl kd url, m, fingerprint kd m body)"

text \<open>
  Modelled from the spec: DeriveKey hashes \<^verbatim>\<open>method:normalizedUrl[:bodyRepresentation]\<close>.
\<close>

definition deriveKey :: "key_deriver \<Rightarrow> identity \<Rightarrow> string" where
  "deriveKey kd ident =
     (case ident of (nurl, m, fp) \<Rightarrow>
        digest kd (m @ '':'' @ nurl @ (case fp of None \<Rightarrow> [] | Some r \<Rightarrow> '':'' @ r)))"

text \<open>
  Modelled from the spec: splitting a normalized URL into its path segments, as
  DeriveLocation needs it.
\<close>

fun split_on :: "char \<Rightarrow> string \<Rightarrow> string list" where
  "split_on d [] = [[]]"
| "split_on d (c # cs) =
     (if c = d then [] # split_on d cs
      else (case split_on d cs of [] \<Rightarrow> [[c]] | x # xs \<Rightarrow> (c # x) # xs))"

text \<open>
  Modelled from the spec: DeriveLocation. The path segments but the last are the
  directory chain, the first two characters of the key are one more directory level,
  and the file name joins the sanitized last segment and the whole key. A URL without
  any segment has the empty stem.
\<close>

definition deriveLocation :: "key_deriver \<Rightarrow> string \<Rightarrow> string \<Rightarrow> string" where
  "deriveLocation kd nurl key =
     (let segments = filter (\<lambda>seg. seg \<noteq> []) (split_on (CHR ''/'') nurl);
          stem = (case rev segments of [] \<Rightarrow> [] | final # _ \<Rightarrow> sanitize kd final)
      in ''data/'' @ concat (map (\<lambda>dir. dir @ ''/'') (butlast segments)) @
         take 2 key @ ''/'' @ stem @ ''_'' @ key @ ''.json'')"

subsection \<open>Blob Store\<close>

text \<open>
  Modelled from the spec: Write of the missing Blob Store fails when the disk is full or
  the path is denied, and then leaves the store as it was.
\<close>

definition blob_write :: "string \<Rightarrow> blob \<Rightarrow> cache_state \<Rightarrow> cache_state option" where
  "blob_write loc b s =
     (if disk_full s \<or> denied s loc then None else Some (s\<lparr>blobs := (blobs s)(loc \<mapsto> b)\<rparr>))"

text \<open>
  Modelled from the spec: Read of the missing Blob Store; a missing file is the not-found
  signal.
\<close>

definition blob_read :: "string \<Rightarrow> cache_state \<Rightarrow> blob option" where
  "blob_read loc s = blobs s loc"

text \<open>
  Modelled from the spec: Delete of the missing Blob Store tolerates a missing file and
  fails on a denied path.
\<close>

definition blob_delete :: "string \<Rightarrow> cache_state \<Rightarrow> cache_state option" where
  "blob_delete loc s =
     (if blobs s loc = None then Some s
      else if denied s loc then None
      else Some (s\<lparr>blobs := (blobs s)(loc := None)\<rparr>))"

subsection \<open>Metadata Index\<close>

text \<open>
  Modelled from the spec: Upsert inserts a row with access count 1, or, where the
  identity has a row, replaces size, location and timestamps and adds one to the
  access count that the row had.
\<close>

fun upsert :: "cache_entry \<Rightarrow> cache_entry list \<Rightarrow> cache_entry list" where
  "upsert e [] = [e\<lparr>accessCount := 1\<rparr>]"
| "upsert e (r # rs) =
     (if identity r = identity e
      then r\<lparr>sizeBytes := sizeBytes e, location := location e, createdAt := createdAt e,
             accessedAt := accessedAt e, accessCount := accessCount r + 1\<rparr> # rs
      else r # upsert e rs)"

text \<open>Modelled from the spec: Lookup is the exact match on the identity tuple.\<close>

definition lookup :: "identity \<Rightarrow> cache_entry list \<Rightarrow> cache_entry option" where
  "lookup ident rows = find (\<lambda>r. identity r = ident) rows"

text \<open>
  Modelled from the spec: the separate step after a Lookup hit, which bumps
  \<open>accessedAt\<close> and \<open>accessCount\<close>.
\<close>

definition record_access :: "nat \<Rightarrow> identity \<Rightarrow> cache_entry list \<Rightarrow> cache_entry list" where
  "record_access now ident rows =
     map (\<lambda>r. if identity r = ident then r\<lparr>accessedAt := now, accessCount := accessCount r + 1\<rparr> else r) rows"

text \<open>Modelled from the spec: PrefixSearch returns the rows whose normalized URL starts with the prefix.\<close>

definition prefixSearch :: "string \<Rightarrow> cache_entry list \<Rightarrow> cache_entry list" where
  "prefixSearch pathPrefix rows = filter (\<lambda>r. startsWith (normalizedUrl r) pathPrefix) rows"

text \<open>
  Modelled from the spec: DeleteByPredicate, for the rows that a query selected: the rows
  of these identities leave the index.
\<close>

definition delete_rows :: "cache_entry list \<Rightarrow> cache_entry list \<Rightarrow> cache_entry list" where
  "delete_rows victims rows = filter (\<lambda>r. identity r \<notin> set (map identity victims)) rows"

text \<open>
  Modelled from the spec: the sum of \<open>sizeBytes\<close> over rows, as the size criterion and
  the statistics of the missing index compute it.
\<close>

definition total_size :: "cache_entry list \<Rightarrow> nat" where
  "total_size rows = sum_list (map sizeBytes rows)"

subsection \<open>Removing entries\<close>

text \<open>
  Modelled from the spec: deleting the blobs of a batch in the missing cache manager; a
  blob that cannot be deleted is logged and skipped, and the batch goes on.
\<close>

fun delete_blobs :: "string list \<Rightarrow> cache_state \<Rightarrow> cache_state" where
  "delete_blobs [] s = s"
| "delete_blobs (loc # locs) s =
     (case blob_delete loc s of
        None \<Rightarrow> delete_blobs locs (s\<lparr>cache_log := cache_log s @ [''Failed to delete '' @ loc]\<rparr>)
      | Some s' \<Rightarrow> delete_blobs locs s')"

text \<open>
  Modelled from the spec: every deletion of the missing cache manager removes the index
  row and the blob.
\<close>

definition remove_entries :: "cache_entry list \<Rightarrow> cache_state \<Rightarrow> cache_state" where
  "remove_entries victims s =
     delete_blobs (map location victims) (s\<lparr>index := delete_rows victims (index s)\<rparr>)"

subsection \<open>Cache Gateway\<close>

text \<open>
  Modelled from the spec: Load asks the index first; on a hit the access is recorded and
  the blob is read; a missing blob is a miss.
\<close>

definition load ::
  "key_deriver \<Rightarrow> nat \<Rightarrow> string \<Rightarrow> string \<Rightarrow> json \<Rightarrow> cache_state \<Rightarrow> json option \<times> cache_state" where
  "load kd now url m body s =
     (let ident = request_identity kd url m body
      in case lookup ident (index s) of
           None \<Rightarrow> (None, s)
         | Some r \<Rightarrow>
             (let s1 = s\<lparr>index := record_access now ident (index s)\<rparr>
              in case blob_read (location r) s1 of
                   None \<Rightarrow> (None, s1)
                 | Some b \<Rightarrow> (Some (blob_payload b), s1)))"

text \<open>
  Modelled from the spec: Save writes the blob, then upserts the index row, and returns
  the success flag; a write failure is logged, nothing else changes, and the flag is
  false.
\<close>

definition save ::
  "key_deriver \<Rightarrow> nat \<Rightarrow> string \<Rightarrow> json \<Rightarrow> string \<Rightarrow> json \<Rightarrow> cache_state \<Rightarrow> bool \<times> cache_state" where
  "save kd now url payload m body s =
     (let nurl = normalizeUrl kd url;
          ident = request_identity kd url m body;
          key = deriveKey kd ident;
          loc = deriveLocation kd nurl key;
          b = \<lparr>blob_url = url, blob_normalizedUrl = nurl, blob_method = m, blob_body = body,
               blob_timestamp = now, blob_payload = payload\<rparr>;
          e = \<lparr>rawUrl = url, normalizedUrl = nurl, http_method = m,
               bodyFingerprint = fingerprint kd m body, location = loc,
               sizeBytes = payloadSize kd payload, createdAt = now, accessedAt = now,
               accessCount = 1\<rparr>
      in case blob_write loc b s of
           None \<Rightarrow> (False, s\<lparr>cache_log := cache_log s @ [''Failed to save cache entry '' @ loc]\<rparr>)
         | Some s1 \<Rightarrow> (True, s1\<lparr>index := upsert e (index s1)\<rparr>))"

text \<open>Modelled from the spec: Exists checks the identity in the index.\<close>

definition exists :: "key_deriver \<Rightarrow> string \<Rightarrow> string \<Rightarrow> json \<Rightarrow> cache_state \<Rightarrow> bool" where
  "exists kd url m body s = (lookup (request_identity kd url m body) (index s) \<noteq> None)"

text \<open>
  Modelled from the spec: Revalidate deletes the entries that PrefixSearch returns and
  reports how many there were.
\<close>

definition revalidatePath :: "string \<Rightarrow> cache_state \<Rightarrow> nat \<times> cache_state" where
  "revalidatePath pathPrefix s =
     (let victims = prefixSearch pathPrefix (index s)
      in (length victims, remove_entries victims s))"

text \<open>Modelled from the spec: ClearAll destroys every entry.\<close>

definition clearAll :: "cache_state \<Rightarrow> bool \<times> cache_state" where
  "clearAll s = (True, s\<lparr>index := [], blobs := Map.empty\<rparr>)"

subsection \<open>Eviction\<close>

text \<open>
  Modelled from the spec: the options of a cleanup call, each criterion present or
  omitted, and its result.
\<close>

record cleanup_options =
  maxAgeDays :: "nat option"
  minAccessCount :: "nat option"
  maxTotalSizeBytes :: "nat option"

record cleanup_result =
  deletedCount :: nat
  deletedBytes :: nat

text \<open>
  Modelled from the spec: an entry is too old when its last access is before now minus
  the given number of days.
\<close>

definition expired :: "nat \<Rightarrow> nat \<Rightarrow> cache_entry \<Rightarrow> bool" where
  "expired now days r = (accessedAt r + days * 86400 < now)"

text \<open>
  Modelled from the spec: the order of the size criterion in the missing cleanup,
  (accessedAt ascending, accessCount ascending).
\<close>

definition eviction_order :: "cache_entry list \<Rightarrow> cache_entry list" where
  "eviction_order rows = sort_key (\<lambda>r. (accessedAt r, accessCount r)) rows"

text \<open>
  Modelled from the spec: the size criterion of the missing cleanup walks the entries in
  that order and takes entries until the running total is at or below the budget.
\<close>

fun size_victims :: "nat \<Rightarrow> nat \<Rightarrow> cache_entry list \<Rightarrow> cache_entry list" where
  "size_victims budget currentSize [] = []"
| "size_victims budget currentSize (r # rs) =
     (if currentSize \<le> budget then []
      else r # size_victims budget (currentSize - sizeBytes r) rs)"

text \<open>
  Modelled from the spec: one criterion of the missing cleanup: the selected rows are
  removed, their number and their bytes are added to the result.
\<close>

definition cleanup_pass ::
  "(cache_entry list \<Rightarrow> cache_entry list) \<Rightarrow> cleanup_result \<times> cache_state
     \<Rightarrow> cleanup_result \<times> cache_state" where
  "cleanup_pass select acc =
     (case acc of (result, s) \<Rightarrow>
        (let victims = select (index s)
         in (\<lparr>deletedCount = deletedCount result + length victims,
              deletedBytes = deletedBytes result + total_size victims\<rparr>,
             remove_entries victims s)))"

text \<open>
  Modelled from the spec: the three criteria run in sequence within one call, each on
  what the one before left.
\<close>

definition cleanup :: "nat \<Rightarrow> cleanup_options \<Rightarrow> cache_state \<Rightarrow> cleanup_result \<times> cache_state" where
  "cleanup now options s =
     (let p0 = (\<lparr>deletedCount = 0, deletedBytes = 0\<rparr>, s);
          p1 = (case maxAgeDays options of
                  None \<Rightarrow> p0
                | Some days \<Rightarrow> cleanup_pass (filter (expired now days)) p0);
          p2 = (case minAccessCount options of
                  None \<Rightarrow> p1
                | Some k \<Rightarrow> cleanup_pass (filter (\<lambda>r. accessCount r < k)) p1)
      in case maxTotalSizeBytes options of
           None \<Rightarrow> p2
         | Some budget \<Rightarrow>
             cleanup_pass (\<lambda>rows. size_victims budget (total_size rows) (eviction_order rows)) p2)"

subsection \<open>Sequences of Gateway operations\<close>

text \<open>
  Modelled from the spec: the operations of the missing Cache Gateway (section 4.5),
  each at a time \<open>now\<close>.
\<close>

datatype gateway_op =
    Load string string json
  | Save string json string json
  | Exists string string json
  | Revalidate string
  | ClearAll
  | Cleanup cleanup_options
  | Stats

text \<open>
  Modelled from the spec: the effect of one operation of the missing Cache Gateway on the
  store; Exists and Stats only read.
\<close>

fun apply_op :: "key_deriver \<Rightarrow> nat \<times> gateway_op \<Rightarrow> cache_state \<Rightarrow> cache_state" where
  "apply_op kd (now, Load url m body) s = snd (load kd now url m body s)"
| "apply_op kd (now, Save url payload m body) s = snd (save kd now url payload m body s)"
| "apply_op kd (now, Exists url m body) s = s"
| "apply_op kd (now, Revalidate pathPrefix) s = snd (revalidatePath pathPrefix s)"
| "apply_op kd (now, ClearAll) s = snd (clearAll s)"
| "apply_op kd (now, Cleanup options) s = snd (cleanup now options s)"
| "apply_op kd (now, Stats) s = s"

text \<open>
  Modelled from the spec: operations of the missing Cache Gateway run one after the
  other; each call completes before the next begins.
\<close>

definition run :: "key_deriver \<Rightarrow> (nat \<times> gateway_op) list \<Rightarrow> cache_state \<Rightarrow> cache_state" where
  "run kd ops s = fold (apply_op kd) ops s"

text \<open>
  Modelled from the spec: the store of the missing cache manager before the first Save:
  no row, no blob.
\<close>

definition empty_store :: "bool \<Rightarrow> (string \<Rightarrow> bool) \<Rightarrow> cache_state" where
  "empty_store full deny =
     \<lparr>index = [], blobs = Map.empty, disk_full = full, denied = deny, cache_log = []\<rparr>"

text \<open>
  Modelled from the spec: the invariant of section 3 on the missing index: at most one
  row for each identity.
\<close>

definition unique_identities :: "cache_entry list \<Rightarrow> bool" where
  "unique_identities rows = distinct (map identity rows)"

subsection \<open>The cache manager behind the middleware\<close>

text \<open>
  Modelled from the spec: the object that \<^verbatim>\<open>middleware/cache.js\<close> calls. A miss is
  \<^verbatim>\<open>null\<close>, the success flag of Save is a boolean, and neither call throws:
  section 7 resolves every failure of Load as a miss and every failure of Save as a
  false flag.
\<close>

definition spec_cache_manager :: "key_deriver \<Rightarrow> nat \<Rightarrow> cache_state cache_manager" where
  "spec_cache_manager kd now =
     \<lparr>cm_load = (\<lambda>url m body s.
         case load kd now url m body s of
           (None, s') \<Rightarrow> (Inr JNull, s')
         | (Some payload, s') \<Rightarrow> (Inr payload, s')),
      cm_save = (\<lambda>url data m body s.
         case save kd now url data m body s of (ok, s') \<Rightarrow> (Inr (JBool ok), s'))\<rparr>"

text \<open>
  Modelled from the spec: the function that \<^verbatim>\<open>POST /revalidate\<close> calls, returning
  \<^verbatim>\<open>{deletedCount}\<close>.
\<close>

definition spec_revalidate :: "string \<Rightarrow> cache_state \<Rightarrow> (exn + json) \<times> cache_state" where
  "spec_revalidate pathPrefix s =
     (case revalidatePath pathPrefix s of
        (n, s') \<Rightarrow> (Inr (JObj [(''deletedCount'', JNum (int n))]), s'))"

section \<open>A cache manager that records its calls\<close>

text \<open>
  To observe which calls the middleware and the handler make, the cache state can be the
  list of calls made so far, with fixed answers for load and save.
\<close>

datatype cache_call = LoadCall string string json | SaveCall string json string json

definition recording_manager :: "exn + json \<Rightarrow> exn + json \<Rightarrow> cache_call list cache_manager" where
  "recording_manager load_answer save_answer =
     \<lparr>cm_load = (\<lambda>url m body calls. (load_answer, calls @ [LoadCall url m body])),
      cm_save = (\<lambda>url data m body calls. (save_answer, calls @ [SaveCall url data m body]))\<rparr>"
section \<open>Concrete inputs\<close>

text \<open>
  A key deriver, stores, entries, requests and an upstream answer to run the definitions
  on. The digest of the example deriver reverses its input: any function will do where
  only the shape of the store matters.
\<close>

definition example_deriver :: key_deriver where
  "example_deriver =
     \<lparr>normalizeUrl = (\<lambda>url. url), digest = (\<lambda>s. rev s), bodyRepresentation = (\<lambda>body. ''{}''),
      sanitize = (\<lambda>stem. stem), payloadSize = (\<lambda>payload. 12)\<rparr>"

definition writable_store :: cache_state where
  "writable_store = empty_store False (\<lambda>loc. False)"

definition full_store :: cache_state where
  "full_store = empty_store True (\<lambda>loc. False)"

definition example_entry :: "string \<Rightarrow> nat \<Rightarrow> nat \<Rightarrow> nat \<Rightarrow> cache_entry" where
  "example_entry url bytes accessed count =
     \<lparr>rawUrl = url, normalizedUrl = url, http_method = ''GET'', bodyFingerprint = None,
      location = ''data'' @ url @ ''.json'', sizeBytes = bytes, createdAt = 0,
      accessedAt = accessed, accessCount = count\<rparr>"

definition example_store :: cache_state where
  "example_store =
     \<lparr>index = [example_entry ''/api/users'' 30 5 1,
               example_entry ''/alldata/vehicle'' 20 9 4,
               example_entry ''/api/parts'' 10 5 3],
      blobs = Map.empty, disk_full = False, denied = (\<lambda>loc. False), cache_log = []\<rparr>"

definition example_request :: "string \<Rightarrow> string \<Rightarrow> string \<Rightarrow> request" where
  "example_request m url user =
     \<lparr>req_method = m, originalUrl = url, req_path = url,
      req_headers = [(''authorization'', ''Bearer '' @ user)], req_body = JObj [],
      req_user = Some user\<rparr>"

definition example_env :: proxy_env where
  "example_env = \<lparr>isFontFile = (\<lambda>p. False), normalizeAssetPath = (\<lambda>p. p),
                   getContentType = (\<lambda>p. ''application/octet-stream''), ensure_dir = (\<lambda>p. None)\<rparr>"

definition not_found :: upstream_response where
  "not_found = \<lparr>up_status = 404, up_headers = [], up_data = JObj [(''error'', JStr ''nope'')], up_pipeable = False\<rparr>"

text \<open>A request as \<open>example_request\<close>, with an \<^verbatim>\<open>accept\<close> header.\<close>

definition accepting_request :: "string \<Rightarrow> string \<Rightarrow> string \<Rightarrow> string \<Rightarrow> request" where
  "accepting_request m url user accept =
     \<lparr>req_method = m, originalUrl = url, req_path = url,
      req_headers = [(''authorization'', ''Bearer '' @ user), (''accept'', accept)],
      req_body = JObj [], req_user = Some user\<rparr>"

section \<open>The middleware and the handler: lemmas\<close>

lemma saveToCache_setHeader: "saveToCache (setHeader k v res) = saveToCache res"
  by (simp add: setHeader_def)

lemma saveToCache_forward_headers: "saveToCache (forward_headers hs res) = saveToCache res"
  unfolding forward_headers_def
  by (induction hs arbitrary: res) (auto simp: saveToCache_setHeader split: prod.splits)

lemma isApiRequest_auth_fields:
  "isApiRequest (req\<lparr>req_user := u\<rparr>) = isApiRequest req"
  by (simp add: isApiRequest_def header_includes_def)

lemma forward_upstream_no_hook:
  "saveToCache res = None \<Longrightarrow> px_cache (forward_upstream cm env up req res c) = c"
  by (auto simp: forward_upstream_def Let_def saveToCache_forward_headers
           split: option.splits sum.splits prod.splits)

lemma forward_upstream_not_200:
  "up_status response \<noteq> 200 \<Longrightarrow> px_cache (forward_upstream cm env (Inr response) req res c) = c"
  by (auto simp: forward_upstream_def Let_def split: option.splits sum.splits prod.splits)

lemma forward_upstream_throw:
  "px_cache (forward_upstream cm env (Inl e) req res c) = c"
  by (auto simp: forward_upstream_def Let_def split: option.splits sum.splits prod.splits)

lemma cacheMiddleware_skip:
  "req_method req \<notin> set [''GET'', ''POST''] \<or> \<not> isApiRequest req \<Longrightarrow>
   cacheMiddleware cm req res c = \<lparr>mw_next = True, mw_res = res, mw_cache = c, mw_console = []\<rparr>"
  by (simp add: cacheMiddleware_def)

lemma status_200_api_response_is_saved:
  assumes "up_status response = 200" "isApiRequest req" "\<not> isFontFile env (req_path req)"
    "saveToCache res = Some captured" "req_user req = Some email"
  shows "px_cache (forward_upstream cm env (Inr response) req res c) =
         snd (cm_save cm (originalUrl captured) (up_data response) (req_method captured) (req_body captured) c)"
  using assms
  by (auto simp: forward_upstream_def Let_def saveToCache_forward_headers call_saveToCache_def
           split: option.splits sum.splits prod.splits)

lemma call_saveToCache_load_irrelevant:
  "call_saveToCache (cm\<lparr>cm_load := f\<rparr>) req data res c = call_saveToCache cm req data res c"
  by (simp add: call_saveToCache_def)

lemma forward_upstream_load_irrelevant:
  "forward_upstream (cm\<lparr>cm_load := f\<rparr>) env up req res c = forward_upstream cm env up req res c"
  by (simp add: forward_upstream_def call_saveToCache_load_irrelevant
        cong: option.case_cong sum.case_cong if_cong)

lemma cacheMiddleware_load_throws:
  assumes "req_method req \<in> set [''GET'', ''POST'']" and "isApiRequest req"
    and "cm_load cm (originalUrl req) (req_method req) (req_body req) c = (Inl error, c')"
  shows "cacheMiddleware cm req res c =
           \<lparr>mw_next = True, mw_res = res\<lparr>saveToCache := Some req\<rparr>, mw_cache = c',
            mw_console = [''Cache middleware error: '' @ error]\<rparr>"
  using assms by (simp add: cacheMiddleware_def)

lemma cacheMiddleware_load_misses:
  assumes "req_method req \<in> set [''GET'', ''POST'']" and "isApiRequest req"
    and "cm_load cm (originalUrl req) (req_method req) (req_body req) c = (Inr v, c')" and "\<not> truthy v"
  shows "cacheMiddleware cm req res c =
           \<lparr>mw_next = True, mw_res = res\<lparr>saveToCache := Some req\<rparr>, mw_cache = c', mw_console = []\<rparr>"
  using assms by (simp add: cacheMiddleware_def)

lemma call_saveToCache_body_status:
  "res_sent (fst (call_saveToCache cm r data res c)) = res_sent res"
  "res_status (fst (call_saveToCache cm r data res c)) = res_status res"
  by (auto simp: call_saveToCache_def setHeader_def split: prod.splits sum.splits)

lemma forward_upstream_body_status:
  "res_sent (px_res (forward_upstream cm env up req res c)) =
   res_sent (px_res (forward_upstream cm' env up req res c'))
   \<and> res_status (px_res (forward_upstream cm env up req res c)) =
   res_status (px_res (forward_upstream cm' env up req res c'))"
  by (auto simp: forward_upstream_def Let_def call_saveToCache_body_status case_prod_unfold res_json_def
           split: option.splits sum.splits)

section \<open>The cache manager: lemmas\<close>

subsection \<open>Identities in the index\<close>

lemma identity_update_simps:
  "identity (r\<lparr>accessCount := n\<rparr>) = identity r"
  "identity (r\<lparr>accessedAt := t\<rparr>) = identity r"
  "identity (r\<lparr>createdAt := t\<rparr>) = identity r"
  "identity (r\<lparr>location := l\<rparr>) = identity r"
  "identity (r\<lparr>sizeBytes := n\<rparr>) = identity r"
  by (simp_all add: identity_def)

lemma identities_upsert:
  "map identity (upsert e rows) =
     (if identity e \<in> set (map identity rows) then map identity rows
      else map identity rows @ [identity e])"
  by (induction rows) (auto simp: identity_update_simps)

lemma unique_identities_Nil: "unique_identities []"
  by (simp add: unique_identities_def)

lemma unique_identities_upsert:
  "unique_identities rows \<Longrightarrow> unique_identities (upsert e rows)"
  by (simp add: unique_identities_def identities_upsert)

lemma identities_record_access:
  "map identity (record_access now ident rows) = map identity rows"
  by (induction rows) (auto simp: record_access_def identity_update_simps)

lemma unique_identities_filter:
  "unique_identities rows \<Longrightarrow> unique_identities (filter P rows)"
  by (simp add: unique_identities_def distinct_map_filter)

lemma index_delete_blobs: "index (delete_blobs locs s) = index s"
  by (induction locs arbitrary: s) (auto simp: blob_delete_def split: option.splits if_splits)

lemma index_remove_entries: "index (remove_entries victims s) = delete_rows victims (index s)"
  by (simp add: remove_entries_def index_delete_blobs)

lemma lookup_upsert_new:
  "lookup (identity e) rows = None \<Longrightarrow>
   lookup (identity e) (upsert e rows) = Some (e\<lparr>accessCount := 1\<rparr>)"
  by (induction rows) (auto simp: lookup_def identity_update_simps)

lemma lookup_upsert_old:
  "lookup (identity e) rows = Some r \<Longrightarrow>
   lookup (identity e) (upsert e rows) =
     Some (r\<lparr>sizeBytes := sizeBytes e, location := location e, createdAt := createdAt e,
             accessedAt := accessedAt e, accessCount := accessCount r + 1\<rparr>)"
  by (induction rows) (auto simp: lookup_def identity_update_simps)

lemma lookup_upsert_location:
  "\<exists>r. lookup (identity e) (upsert e rows) = Some r \<and> location r = location e"
proof (cases "lookup (identity e) rows")
  case None
  then show ?thesis by (simp add: lookup_upsert_new)
next
  case (Some r)
  then show ?thesis by (simp add: lookup_upsert_old)
qed

lemma save_entry_identity:
  "identity \<lparr>rawUrl = url, normalizedUrl = normalizeUrl kd url, http_method = m,
             bodyFingerprint = fingerprint kd m body, location = loc, sizeBytes = n,
             createdAt = t, accessedAt = t', accessCount = k\<rparr> = request_identity kd url m body"
  by (simp add: identity_def request_identity_def)

lemma lookup_Some_identity: "lookup ident rows = Some r \<Longrightarrow> identity r = ident \<and> r \<in> set rows"
  by (induction rows) (auto simp: lookup_def split: if_splits)

lemma filter_identity_unique:
  "unique_identities rows \<Longrightarrow> lookup ident rows = Some r \<Longrightarrow>
   filter (\<lambda>x. identity x = ident) rows = [r]"
proof (induction rows)
  case Nil
  then show ?case by (simp add: lookup_def)
next
  case (Cons a rows)
  show ?case
  proof (cases "identity a = ident")
    case True
    with Cons.prems have "a = r" by (simp add: lookup_def)
    moreover from Cons.prems(1) True have "identity a \<notin> identity ` set rows"
      by (simp add: unique_identities_def)
    with True have "\<forall>x\<in>set rows. identity x \<noteq> ident"
      by blast
    then have "filter (\<lambda>x. identity x = ident) rows = []" by (simp add: filter_empty_conv)
    ultimately show ?thesis using True by simp
  next
    case False
    with Cons show ?thesis by (simp add: lookup_def unique_identities_def)
  qed
qed

lemma lookup_filter:
  "(\<And>r. r \<in> set rows \<Longrightarrow> identity r = ident \<Longrightarrow> Q r) \<Longrightarrow>
   lookup ident (filter Q rows) = lookup ident rows"
  by (induction rows) (auto simp: lookup_def)

lemma lookup_filter_none:
  "(\<And>r. r \<in> set rows \<Longrightarrow> identity r = ident \<Longrightarrow> \<not> Q r) \<Longrightarrow>
   lookup ident (filter Q rows) = None"
  by (induction rows) (auto simp: lookup_def)

subsection \<open>The invariant along every run\<close>

lemma unique_identities_load:
  "unique_identities (index s) \<Longrightarrow> unique_identities (index (snd (load kd now url m body s)))"
  by (auto simp: load_def Let_def unique_identities_def identities_record_access
           split: option.splits)

lemma unique_identities_save:
  "unique_identities (index s) \<Longrightarrow> unique_identities (index (snd (save kd now url payload m body s)))"
  by (auto simp: save_def Let_def blob_write_def unique_identities_upsert split: option.splits)

lemma unique_identities_remove_entries:
  "unique_identities (index s) \<Longrightarrow> unique_identities (index (remove_entries victims s))"
  by (simp add: index_remove_entries delete_rows_def unique_identities_filter)

lemma unique_identities_cleanup_pass:
  "unique_identities (index (snd acc)) \<Longrightarrow> unique_identities (index (snd (cleanup_pass select acc)))"
  by (cases acc) (simp add: cleanup_pass_def Let_def unique_identities_remove_entries)

lemma unique_identities_cleanup:
  "unique_identities (index s) \<Longrightarrow> unique_identities (index (snd (cleanup now options s)))"
  by (auto simp: cleanup_def Let_def intro!: unique_identities_cleanup_pass split: option.splits)

lemma unique_identities_apply_op:
  "unique_identities (index s) \<Longrightarrow> unique_identities (index (apply_op kd timed_op s))"
proof (cases timed_op)
  case (Pair now op)
  assume "unique_identities (index s)"
  then show ?thesis unfolding Pair
    by (cases op)
       (simp_all add: unique_identities_load unique_identities_save unique_identities_cleanup
          revalidatePath_def Let_def unique_identities_remove_entries clearAll_def unique_identities_Nil)
qed

lemma unique_identities_run:
  "unique_identities (index s) \<Longrightarrow> unique_identities (index (run kd ops s))"
  unfolding run_def by (induction ops arbitrary: s) (simp_all add: unique_identities_apply_op)

lemma unique_identities_reachable:
  "unique_identities (index (run kd ops (empty_store full deny)))"
  by (rule unique_identities_run) (simp add: empty_store_def unique_identities_Nil)

subsection \<open>Save and Load\<close>

lemma load_after_successful_save:
  assumes "save kd t1 url payload m body s = (True, s1)"
  shows "fst (load kd t2 url m body s1) = Some payload"
proof -
  let ?ident = "request_identity kd url m body"
  let ?loc = "deriveLocation kd (normalizeUrl kd url) (deriveKey kd ?ident)"
  let ?e = "\<lparr>rawUrl = url, normalizedUrl = normalizeUrl kd url, http_method = m,
             bodyFingerprint = fingerprint kd m body, location = ?loc,
             sizeBytes = payloadSize kd payload, createdAt = t1, accessedAt = t1,
             accessCount = 1\<rparr>"
  from assms have idx: "index s1 = upsert ?e (index s)"
    and blob: "\<exists>b. blobs s1 ?loc = Some b \<and> blob_payload b = payload"
    by (auto simp: save_def Let_def blob_write_def split: option.splits if_splits)
  have "identity ?e = ?ident" by (rule save_entry_identity)
  with lookup_upsert_location[of ?e "index s"] idx
  obtain r where r: "lookup ?ident (index s1) = Some r" "location r = ?loc"
    by auto
  with blob show ?thesis
    by (auto simp: load_def Let_def blob_read_def split: option.splits)
qed

lemma missing_blob_is_a_miss:
  assumes "lookup (request_identity kd url m body) (index s) = Some r" and "blobs s (location r) = None"
  shows "fst (load kd now url m body s) = None"
  using assms by (simp add: load_def Let_def blob_read_def)

lemma save_write_failure:
  assumes "disk_full s \<or> denied s (deriveLocation kd (normalizeUrl kd url) (deriveKey kd (request_identity kd url m body)))"
  shows "save kd now url payload m body s =
          (False, s\<lparr>cache_log := cache_log s @
             [''Failed to save cache entry '' @
              deriveLocation kd (normalizeUrl kd url) (deriveKey kd (request_identity kd url m body))]\<rparr>)"
  using assms by (auto simp: save_def Let_def blob_write_def)

lemma spec_save_never_throws:
  "cm_save (spec_cache_manager kd now) url data m body s =
     (Inr (JBool (fst (save kd now url data m body s))), snd (save kd now url data m body s))"
  by (simp add: spec_cache_manager_def split: prod.splits)

lemma call_saveToCache_spec:
  "call_saveToCache (spec_cache_manager kd now) r data res s =
     (setHeader ''X-Cache'' ''MISS'' res, snd (save kd now (originalUrl r) data (req_method r) (req_body r) s), [])"
  by (simp add: call_saveToCache_def spec_save_never_throws)

lemma forward_upstream_spec_response:
  "px_res (forward_upstream (spec_cache_manager kd now) env up req res s) =
   px_res (forward_upstream (spec_cache_manager kd now) env up req res s')"
  by (auto simp: forward_upstream_def call_saveToCache_spec Let_def
        split: option.splits sum.splits)

lemma spec_load_after_save:
  assumes "save kd t1 url payload m body s = (True, s1)"
  shows "fst (cm_load (spec_cache_manager kd t2) url m body s1) = Inr payload"
proof -
  from assms have "fst (load kd t2 url m body s1) = Some payload"
    by (rule load_after_successful_save)
  then show ?thesis
    by (cases "load kd t2 url m body s1") (simp add: spec_cache_manager_def)
qed

text \<open>
  Through the middleware: what one caller's request saved is what the middleware finds
  for any later request with the same URL, method and body. A payload that is falsy in
  JavaScript (\<^verbatim>\<open>null\<close>, \<^verbatim>\<open>false\<close>, \<^verbatim>\<open>0\<close>, the empty string) is found too, but
  the test \<^verbatim>\<open>if (cachedData)\<close> takes it for a miss.
\<close>

lemma cached_payload_is_served_to_any_caller:
  assumes "save kd t1 (originalUrl r1) data (req_method r1) (req_body r1) s = (True, s1)"
    and "originalUrl r2 = originalUrl r1" and "req_method r2 = req_method r1"
    and "req_body r2 = req_body r1"
    and "req_method r2 \<in> set [''GET'', ''POST'']" and "isApiRequest r2"
  shows "mw_next (cacheMiddleware (spec_cache_manager kd t2) r2 res s1) = (\<not> truthy data)
       \<and> (truthy data \<longrightarrow> res_sent (mw_res (cacheMiddleware (spec_cache_manager kd t2) r2 res s1)) = SentJson data)"
proof -
  from spec_load_after_save[OF assms(1), of t2]
  obtain s2 where "cm_load (spec_cache_manager kd t2) (originalUrl r2) (req_method r2) (req_body r2) s1
      = (Inr data, s2)"
    using assms(2-4) by (metis prod.collapse)
  with assms(5,6) show ?thesis
    by (simp add: cacheMiddleware_def res_json_def)
qed

subsection \<open>Revalidation\<close>

lemma delete_rows_prefixSearch:
  "delete_rows (prefixSearch P rows) rows = filter (\<lambda>r. \<not> startsWith (normalizedUrl r) P) rows"
proof -
  have "identity r \<notin> set (map identity (prefixSearch P rows)) \<longleftrightarrow> \<not> startsWith (normalizedUrl r) P"
    if "r \<in> set rows" for r
  proof
    assume "identity r \<notin> set (map identity (prefixSearch P rows))"
    with that show "\<not> startsWith (normalizedUrl r) P"
      by (auto simp: prefixSearch_def)
  next
    assume "\<not> startsWith (normalizedUrl r) P"
    then show "identity r \<notin> set (map identity (prefixSearch P rows))"
      by (auto simp: prefixSearch_def identity_def)
  qed
  then show ?thesis
    unfolding delete_rows_def by (intro filter_cong) auto
qed

lemma blobs_delete_blobs_other:
  "loc \<notin> set locs \<Longrightarrow> blobs (delete_blobs locs s) loc = blobs s loc"
  by (induction locs arbitrary: s) (auto simp: blob_delete_def split: option.splits if_splits)

lemma blobs_remove_entries_other:
  "loc \<notin> location ` set victims \<Longrightarrow> blobs (remove_entries victims s) loc = blobs s loc"
  by (simp add: remove_entries_def blobs_delete_blobs_other)

lemma blobs_delete_blobs_absent:
  "blobs s loc = None \<Longrightarrow> blobs (delete_blobs locs s) loc = None"
  by (induction locs arbitrary: s) (auto simp: blob_delete_def split: option.splits if_splits)

lemma blobs_delete_blobs_deleted:
  "loc \<in> set locs \<Longrightarrow> \<not> denied s loc \<Longrightarrow> blobs (delete_blobs locs s) loc = None"
proof (induction locs arbitrary: s)
  case Nil
  then show ?case by simp
next
  case (Cons a locs)
  show ?case
  proof (cases "a = loc")
    case True
    with Cons.prems(2) show ?thesis
      by (auto simp: blob_delete_def blobs_delete_blobs_absent)
  next
    case False
    with Cons.prems have "loc \<in> set locs" by simp
    then show ?thesis
      using Cons.IH Cons.prems(2) by (auto simp: blob_delete_def)
  qed
qed

lemma blobs_remove_entries_deleted:
  "r \<in> set victims \<Longrightarrow> \<not> denied s (location r) \<Longrightarrow>
   blobs (remove_entries victims s) (location r) = None"
  by (simp add: remove_entries_def blobs_delete_blobs_deleted)

text \<open>
  The route in front of Revalidate: a non-empty path reaches the cache manager, a missing
  or empty one is answered with 400 and leaves the store alone.
\<close>

lemma route_revalidate_reaches_the_gateway:
  "P \<noteq> [] \<Longrightarrow>
   route_revalidate spec_revalidate (Some P) res s =
     (res_json (JObj [(''deletedCount'', JNum (int (fst (revalidatePath P s))))]) res,
      snd (revalidatePath P s))"
  by (simp add: route_revalidate_def spec_revalidate_def split: prod.splits)

lemma route_revalidate_rejects_empty_path:
  "snd (route_revalidate revalidate (Some []) res c) = c \<and> snd (route_revalidate revalidate None res c) = c
   \<and> res_status (fst (route_revalidate revalidate (Some []) res c)) = 400"
  by (simp add: route_revalidate_def res_json_def)

subsection \<open>Eviction by size\<close>

lemma total_size_Cons: "total_size (r # rs) = sizeBytes r + total_size rs"
  by (simp add: total_size_def)

lemma total_size_append: "total_size (xs @ ys) = total_size xs + total_size ys"
  by (simp add: total_size_def)

lemma total_size_insort: "total_size (insort_key f r rs) = sizeBytes r + total_size rs"
  by (induction rs) (simp_all add: total_size_def)

lemma total_size_sort_key: "total_size (sort_key f rows) = total_size rows"
  by (induction rows) (simp_all add: sort_key_simps total_size_insort total_size_Cons)

lemma total_size_filter_le: "total_size (filter Q rows) \<le> total_size rows"
  by (induction rows) (simp_all add: total_size_def)

lemma size_victims_is_initial_segment:
  "\<exists>k\<le>length rows. size_victims budget (total_size rows) rows = take k rows
      \<and> total_size (drop k rows) \<le> budget
      \<and> (\<forall>j<k. budget < total_size (drop j rows))"
proof (induction rows)
  case Nil
  show ?case by (simp add: total_size_def)
next
  case (Cons r rs)
  show ?case
  proof (cases "total_size (r # rs) \<le> budget")
    case True
    then have "size_victims budget (total_size (r # rs)) (r # rs) = take 0 (r # rs)
        \<and> total_size (drop 0 (r # rs)) \<le> budget \<and> (\<forall>j<0. budget < total_size (drop j (r # rs)))"
      by simp
    then show ?thesis by blast
  next
    case False
    from Cons.IH obtain k where k: "k \<le> length rs"
      "size_victims budget (total_size rs) rs = take k rs"
      "total_size (drop k rs) \<le> budget" "\<forall>j<k. budget < total_size (drop j rs)"
      by blast
    have "size_victims budget (total_size (r # rs)) (r # rs) = take (Suc k) (r # rs)"
      using False k(2) by (simp add: total_size_Cons)
    moreover have "total_size (drop (Suc k) (r # rs)) \<le> budget" using k(3) by simp
    moreover have "\<forall>j<Suc k. budget < total_size (drop j (r # rs))"
    proof (intro allI impI)
      fix j assume "j < Suc k"
      then show "budget < total_size (drop j (r # rs))"
        using False k(4) by (cases j) auto
    qed
    moreover have "Suc k \<le> length (r # rs)" using k(1) by simp
    ultimately show ?thesis by blast
  qed
qed

lemma total_size_delete_initial_segment:
  "total_size (delete_rows (take k (sort_key f rows)) rows) \<le> total_size (drop k (sort_key f rows))"
proof -
  let ?sorted = "sort_key f rows"
  let ?Q = "\<lambda>r. identity r \<notin> set (map identity (take k ?sorted))"
  have "total_size (filter ?Q rows) = total_size (sort_key f (filter ?Q rows))"
    by (simp add: total_size_sort_key)
  also have "\<dots> = total_size (filter ?Q ?sorted)"
    by (simp add: filter_sort)
  also have "\<dots> = total_size (filter ?Q (take k ?sorted)) + total_size (filter ?Q (drop k ?sorted))"
    by (metis append_take_drop_id filter_append total_size_append)
  also have "filter ?Q (take k ?sorted) = []"
    by (simp add: filter_empty_conv)
  finally show ?thesis
    by (simp add: delete_rows_def total_size_def[of "[]"] total_size_filter_le)
qed

lemma delete_rows_by_membership:
  assumes "unique_identities rows" and "set victims \<subseteq> set rows"
  shows "delete_rows victims rows = filter (\<lambda>r. r \<notin> set victims) rows"
proof -
  from assms(1) have inj: "inj_on identity (set rows)"
    by (simp add: unique_identities_def distinct_map)
  have "identity r \<notin> set (map identity victims) \<longleftrightarrow> r \<notin> set victims" if "r \<in> set rows" for r
    using that assms(2) inj by (auto dest: inj_onD)
  then show ?thesis unfolding delete_rows_def by (intro filter_cong) auto
qed

lemma cleanup_size_only:
  "cleanup now \<lparr>maxAgeDays = None, minAccessCount = None, maxTotalSizeBytes = Some budget\<rparr> s =
     (let victims = size_victims budget (total_size (index s)) (eviction_order (index s))
      in (\<lparr>deletedCount = length victims, deletedBytes = total_size victims\<rparr>,
          remove_entries victims s))"
  by (simp add: cleanup_def cleanup_pass_def Let_def)

section \<open>The claims\<close>

subsection \<open>Round trip\<close>

text \<open>
  C1. A Save of payload \<open>p\<close> under (url, method, body) that reports success, followed by
  a Load of the same (url, method, body), returns \<open>p\<close>, for every URL, method, body and
  payload, every key deriver and every store.
\<close>

theorem save_then_load_returns_payload:
  assumes "save kd t1 url payload m body s = (True, s1)"
  shows "fst (load kd t2 url m body s1) = Some payload"
  using assms by (rule load_after_successful_save)

theorem save_then_load_returns_payload_witness:
  "fst (save example_deriver 1 ''/api/users?id=5'' (JObj [(''name'', JStr ''a'')]) ''POST'' (JObj []) writable_store)
   \<and> fst (load example_deriver 2 ''/api/users?id=5'' ''POST'' (JObj [])
          (snd (save example_deriver 1 ''/api/users?id=5'' (JObj [(''name'', JStr ''a'')]) ''POST'' (JObj []) writable_store)))
       = Some (JObj [(''name'', JStr ''a'')])"
proof -
  have ok: "fst (save example_deriver 1 ''/api/users?id=5'' (JObj [(''name'', JStr ''a'')]) ''POST'' (JObj []) writable_store)"
    by (simp add: save_def Let_def blob_write_def writable_store_def empty_store_def)
  then have "save example_deriver 1 ''/api/users?id=5'' (JObj [(''name'', JStr ''a'')]) ''POST'' (JObj []) writable_store
      = (True, snd (save example_deriver 1 ''/api/users?id=5'' (JObj [(''name'', JStr ''a'')]) ''POST'' (JObj []) writable_store))"
    by (simp add: prod_eq_iff)
  from save_then_load_returns_payload[OF this] ok show ?thesis by simp
qed

subsection \<open>Identity uniqueness\<close>

text \<open>
  C2. After every sequence of Gateway operations on a store that started empty, no two
  rows of the index have the same identity (normalizedUrl, http_method, bodyFingerprint). A
  successful Save to an identity that has a row leaves exactly one row for that identity,
  and its access count is the earlier count plus one.
\<close>

theorem identity_is_unique_and_upsert_increments:
  "unique_identities (index (run kd ops (empty_store full deny)))
   \<and> (\<forall>r now url payload m body s'.
        lookup (request_identity kd url m body) (index (run kd ops (empty_store full deny))) = Some r
        \<and> save kd now url payload m body (run kd ops (empty_store full deny)) = (True, s')
        \<longrightarrow> (\<exists>r'. filter (\<lambda>x. identity x = request_identity kd url m body) (index s') = [r']
                  \<and> accessCount r' = accessCount r + 1))"
proof (intro conjI allI impI)
  show "unique_identities (index (run kd ops (empty_store full deny)))"
    by (rule unique_identities_reachable)
next
  fix r now url payload m body s'
  let ?s = "run kd ops (empty_store full deny)"
  let ?ident = "request_identity kd url m body"
  let ?loc = "deriveLocation kd (normalizeUrl kd url) (deriveKey kd ?ident)"
  let ?e = "\<lparr>rawUrl = url, normalizedUrl = normalizeUrl kd url, http_method = m,
             bodyFingerprint = fingerprint kd m body, location = ?loc,
             sizeBytes = payloadSize kd payload, createdAt = now, accessedAt = now,
             accessCount = 1\<rparr>"
  assume h: "lookup ?ident (index ?s) = Some r \<and> save kd now url payload m body ?s = (True, s')"
  then have idx: "index s' = upsert ?e (index ?s)"
    by (auto simp: save_def Let_def blob_write_def split: option.splits if_splits)
  have ide: "identity ?e = ?ident" by (rule save_entry_identity)
  let ?r' = "r\<lparr>sizeBytes := sizeBytes ?e, location := location ?e, createdAt := createdAt ?e,
             accessedAt := accessedAt ?e, accessCount := accessCount r + 1\<rparr>"
  from h ide have "lookup ?ident (upsert ?e (index ?s)) = Some ?r'"
    using lookup_upsert_old[of ?e "index ?s" r] by simp
  moreover have "unique_identities (upsert ?e (index ?s))"
    by (intro unique_identities_upsert unique_identities_reachable)
  ultimately have "filter (\<lambda>x. identity x = ?ident) (index s') = [?r']"
    unfolding idx by (rule filter_identity_unique[rotated])
  then show "\<exists>r'. filter (\<lambda>x. identity x = ?ident) (index s') = [r'] \<and> accessCount r' = accessCount r + 1"
    by simp
qed

theorem identity_is_unique_and_upsert_increments_witness:
  "map accessCount
     (filter (\<lambda>x. identity x = request_identity example_deriver ''/api/users?id=5'' ''GET'' (JObj []))
        (index (snd (save example_deriver 2 ''/api/users?id=5'' (JStr ''b'') ''GET'' (JObj [])
           (run example_deriver [(1, Save ''/api/users?id=5'' (JStr ''a'') ''GET'' (JObj []))]
              (empty_store False (\<lambda>loc. False))))))) = [2]"
proof -
  let ?s1 = "run example_deriver [(1, Save ''/api/users?id=5'' (JStr ''a'') ''GET'' (JObj []))]
              (empty_store False (\<lambda>loc. False))"
  let ?ident = "request_identity example_deriver ''/api/users?id=5'' ''GET'' (JObj [])"
  have "\<exists>r. lookup ?ident (index ?s1) = Some r \<and> accessCount r = 1"
    by (simp add: run_def save_def Let_def blob_write_def empty_store_def lookup_def identity_def
          request_identity_def)
  then obtain r where r: "lookup ?ident (index ?s1) = Some r" "accessCount r = 1" by blast
  have "fst (save example_deriver 2 ''/api/users?id=5'' (JStr ''b'') ''GET'' (JObj []) ?s1)"
    by (simp add: run_def save_def Let_def blob_write_def empty_store_def)
  then have sv: "save example_deriver 2 ''/api/users?id=5'' (JStr ''b'') ''GET'' (JObj []) ?s1
      = (True, snd (save example_deriver 2 ''/api/users?id=5'' (JStr ''b'') ''GET'' (JObj []) ?s1))"
    by (simp add: prod_eq_iff)
  from identity_is_unique_and_upsert_increments[of example_deriver
      "[(1, Save ''/api/users?id=5'' (JStr ''a'') ''GET'' (JObj []))]" False "\<lambda>loc. False"] r(1) sv
  obtain r' where "filter (\<lambda>x. identity x = ?ident)
      (index (snd (save example_deriver 2 ''/api/users?id=5'' (JStr ''b'') ''GET'' (JObj []) ?s1))) = [r']"
    "accessCount r' = accessCount r + 1"
    by blast
  with r(2) show ?thesis by simp
qed

subsection \<open>Size-bound cleanup\<close>

text \<open>
  C3. For every store and every budget, a cleanup with only the size criterion leaves
  a total size at or below the budget. The eviction order is sorted by
  (accessedAt, accessCount); on a store with unique identities the rows removed are
  exactly the first \<open>k\<close> rows of that order, where \<open>k\<close> is the number of deletions reported
  and the least number of deletions that brings the total within the budget.
\<close>

theorem size_bound_cleanup:
  "total_size (index (snd (cleanup now \<lparr>maxAgeDays = None, minAccessCount = None,
                                        maxTotalSizeBytes = Some budget\<rparr> s))) \<le> budget
   \<and> sorted (map (\<lambda>r. (accessedAt r, accessCount r)) (eviction_order (index s)))
   \<and> (unique_identities (index s) \<longrightarrow>
        (\<exists>k\<le>length (index s).
           index (snd (cleanup now \<lparr>maxAgeDays = None, minAccessCount = None,
                                    maxTotalSizeBytes = Some budget\<rparr> s))
             = filter (\<lambda>r. r \<notin> set (take k (eviction_order (index s)))) (index s)
           \<and> deletedCount (fst (cleanup now \<lparr>maxAgeDays = None, minAccessCount = None,
                                    maxTotalSizeBytes = Some budget\<rparr> s)) = k
           \<and> total_size (drop k (eviction_order (index s))) \<le> budget
           \<and> (\<forall>j<k. budget < total_size (drop j (eviction_order (index s))))))"
proof -
  let ?opts = "\<lparr>maxAgeDays = None, minAccessCount = None, maxTotalSizeBytes = Some budget\<rparr>"
  let ?sorted = "eviction_order (index s)"
  let ?victims = "size_victims budget (total_size (index s)) ?sorted"
  have ts: "total_size (index s) = total_size ?sorted"
    by (simp add: eviction_order_def total_size_sort_key)
  from size_victims_is_initial_segment[of ?sorted budget]
  obtain k where k: "k \<le> length ?sorted" "?victims = take k ?sorted"
    "total_size (drop k ?sorted) \<le> budget" "\<forall>j<k. budget < total_size (drop j ?sorted)"
    unfolding ts by blast
  have idx: "index (snd (cleanup now ?opts s)) = delete_rows (take k ?sorted) (index s)"
    by (simp add: cleanup_size_only Let_def index_remove_entries k(2))
  have cnt: "deletedCount (fst (cleanup now ?opts s)) = k"
    using k(1) by (simp add: cleanup_size_only Let_def k(2))
  have "total_size (index (snd (cleanup now ?opts s))) \<le> total_size (drop k ?sorted)"
    unfolding idx eviction_order_def by (rule total_size_delete_initial_segment)
  with k(3) have bound: "total_size (index (snd (cleanup now ?opts s))) \<le> budget" by simp
  have srt: "sorted (map (\<lambda>r. (accessedAt r, accessCount r)) ?sorted)"
    by (simp add: eviction_order_def)
  have len: "length ?sorted = length (index s)" by (simp add: eviction_order_def)
  have "index (snd (cleanup now ?opts s)) = filter (\<lambda>r. r \<notin> set (take k ?sorted)) (index s)"
    if "unique_identities (index s)"
  proof -
    have "set (take k ?sorted) \<subseteq> set (index s)"
      using set_take_subset[of k ?sorted] by (simp add: eviction_order_def)
    with that show ?thesis unfolding idx by (rule delete_rows_by_membership)
  qed
  with bound srt cnt k len show ?thesis by auto
qed

theorem size_bound_cleanup_witness:
  "unique_identities (index example_store)
   \<and> map rawUrl (eviction_order (index example_store)) = [''/api/users'', ''/api/parts'', ''/alldata/vehicle'']
   \<and> map rawUrl (index (snd (cleanup 100 \<lparr>maxAgeDays = None, minAccessCount = None,
                                           maxTotalSizeBytes = Some 25\<rparr> example_store)))
       = [''/alldata/vehicle'']
   \<and> total_size (index (snd (cleanup 100 \<lparr>maxAgeDays = None, minAccessCount = None,
                                           maxTotalSizeBytes = Some 25\<rparr> example_store))) \<le> 25
   \<and> (\<exists>k\<le>length (index example_store).
           index (snd (cleanup 100 \<lparr>maxAgeDays = None, minAccessCount = None,
                                    maxTotalSizeBytes = Some 25\<rparr> example_store))
             = filter (\<lambda>r. r \<notin> set (take k (eviction_order (index example_store)))) (index example_store)
           \<and> deletedCount (fst (cleanup 100 \<lparr>maxAgeDays = None, minAccessCount = None,
                                    maxTotalSizeBytes = Some 25\<rparr> example_store)) = k
           \<and> total_size (drop k (eviction_order (index example_store))) \<le> 25
           \<and> (\<forall>j<k. 25 < total_size (drop j (eviction_order (index example_store)))))"
proof -
  have u: "unique_identities (index example_store)"
    by (simp add: unique_identities_def example_store_def example_entry_def identity_def)
  have order: "map rawUrl (eviction_order (index example_store))
      = [''/api/users'', ''/api/parts'', ''/alldata/vehicle'']"
    by (simp add: eviction_order_def example_store_def example_entry_def)
  have left: "map rawUrl (index (snd (cleanup 100 \<lparr>maxAgeDays = None, minAccessCount = None,
                                           maxTotalSizeBytes = Some 25\<rparr> example_store)))
      = [''/alldata/vehicle'']"
    by (simp add: cleanup_size_only Let_def index_remove_entries delete_rows_def eviction_order_def
          example_store_def example_entry_def total_size_def identity_def)
  from size_bound_cleanup[of 100 25 example_store] u order left show ?thesis by blast
qed

subsection \<open>Prefix revalidation\<close>

text \<open>
  C4. Revalidate with prefix \<open>P\<close> removes exactly the rows whose normalized URL starts with
  \<open>P\<close> and reports their number; the other rows stay as they were, Exists answers for
  them as before, Exists is false for every request under the prefix, the blob of a
  removed row is gone unless its path is denied, and no blob is touched but those of
  the removed rows.
\<close>

theorem revalidate_deletes_exactly_the_prefix:
  "index (snd (revalidatePath P s)) = filter (\<lambda>r. \<not> startsWith (normalizedUrl r) P) (index s)
   \<and> fst (revalidatePath P s) = length (filter (\<lambda>r. startsWith (normalizedUrl r) P) (index s))
   \<and> (\<forall>url m body. \<not> startsWith (normalizeUrl kd url) P \<longrightarrow>
         exists kd url m body (snd (revalidatePath P s)) = exists kd url m body s)
   \<and> (\<forall>url m body. startsWith (normalizeUrl kd url) P \<longrightarrow>
         \<not> exists kd url m body (snd (revalidatePath P s)))
   \<and> (\<forall>r\<in>set (index s). startsWith (normalizedUrl r) P \<and> \<not> denied s (location r) \<longrightarrow>
         blobs (snd (revalidatePath P s)) (location r) = None)
   \<and> (\<forall>loc. loc \<notin> location ` set (prefixSearch P (index s)) \<longrightarrow>
         blobs (snd (revalidatePath P s)) loc = blobs s loc)"
proof -
  have idx: "index (snd (revalidatePath P s)) = filter (\<lambda>r. \<not> startsWith (normalizedUrl r) P) (index s)"
    by (simp add: revalidatePath_def Let_def index_remove_entries delete_rows_prefixSearch)
  have cnt: "fst (revalidatePath P s) = length (filter (\<lambda>r. startsWith (normalizedUrl r) P) (index s))"
    by (simp add: revalidatePath_def Let_def prefixSearch_def)
  have keep: "exists kd url m body (snd (revalidatePath P s)) = exists kd url m body s"
    if "\<not> startsWith (normalizeUrl kd url) P" for url m body
  proof -
    have "lookup (request_identity kd url m body) (filter (\<lambda>r. \<not> startsWith (normalizedUrl r) P) (index s))
        = lookup (request_identity kd url m body) (index s)"
      using that by (intro lookup_filter) (auto simp: identity_def request_identity_def)
    then show ?thesis by (simp add: exists_def idx)
  qed
  have gone: "\<not> exists kd url m body (snd (revalidatePath P s))"
    if "startsWith (normalizeUrl kd url) P" for url m body
  proof -
    have "lookup (request_identity kd url m body) (filter (\<lambda>r. \<not> startsWith (normalizedUrl r) P) (index s))
        = None"
      using that by (intro lookup_filter_none) (auto simp: identity_def request_identity_def)
    then show ?thesis by (simp add: exists_def idx)
  qed
  have frame: "blobs (snd (revalidatePath P s)) loc = blobs s loc"
    if "loc \<notin> location ` set (prefixSearch P (index s))" for loc
    using that by (simp add: revalidatePath_def Let_def blobs_remove_entries_other)
  have blob_gone: "blobs (snd (revalidatePath P s)) (location r) = None"
    if "r \<in> set (index s)" "startsWith (normalizedUrl r) P" "\<not> denied s (location r)" for r
  proof -
    from that(1,2) have "r \<in> set (prefixSearch P (index s))" by (simp add: prefixSearch_def)
    with that(3) show ?thesis
      by (simp add: revalidatePath_def Let_def blobs_remove_entries_deleted)
  qed
  from idx cnt keep gone blob_gone frame show ?thesis by blast
qed

theorem revalidate_deletes_exactly_the_prefix_witness:
  "exists example_deriver ''/alldata/vehicle'' ''GET'' (JObj []) (snd (revalidatePath ''/api'' example_store))
   \<and> \<not> exists example_deriver ''/api/users'' ''GET'' (JObj []) (snd (revalidatePath ''/api'' example_store))
   \<and> index (snd (revalidatePath ''/api'' example_store)) = [example_entry ''/alldata/vehicle'' 20 9 4]"
proof -
  have a: "\<not> startsWith (normalizeUrl example_deriver ''/alldata/vehicle'') ''/api''"
    by (simp add: example_deriver_def startsWith_def)
  have b: "startsWith (normalizeUrl example_deriver ''/api/users'') ''/api''"
    by (simp add: example_deriver_def startsWith_def)
  have c: "exists example_deriver ''/alldata/vehicle'' ''GET'' (JObj []) example_store"
    by (simp add: exists_def lookup_def request_identity_def fingerprint_def identity_def
          example_deriver_def example_store_def example_entry_def)
  have d: "filter (\<lambda>r. \<not> startsWith (normalizedUrl r) ''/api'') (index example_store)
         = [example_entry ''/alldata/vehicle'' 20 9 4]"
    by (simp add: example_store_def example_entry_def startsWith_def)
  from revalidate_deletes_exactly_the_prefix[of "''/api''" example_store example_deriver] a b c d
  show ?thesis by simp
qed

subsection \<open>A failing Load\<close>

text \<open>
  C5. For a cacheable request (GET or POST, classified as an API request) whose
  \<^verbatim>\<open>cacheManager.load\<close> throws, the middleware logs the error, attaches the save hook
  and calls \<^verbatim>\<open>next()\<close>, exactly as on a miss; the response and the cache state that
  \<^verbatim>\<open>proxyRequest\<close> ends with are those of a miss.
\<close>

theorem load_failure_is_a_miss:
  assumes "req_method req \<in> set [''GET'', ''POST'']" and "isApiRequest req"
    and "cm_load cm (originalUrl req) (req_method req) (req_body req) c = (Inl error, c')"
  shows "cacheMiddleware cm req res c =
           \<lparr>mw_next = True, mw_res = res\<lparr>saveToCache := Some req\<rparr>, mw_cache = c',
            mw_console = [''Cache middleware error: '' @ error]\<rparr>
       \<and> cacheMiddleware (cm\<lparr>cm_load := \<lambda>url m body s. (Inr JNull, c')\<rparr>) req res c =
           \<lparr>mw_next = True, mw_res = res\<lparr>saveToCache := Some req\<rparr>, mw_cache = c', mw_console = []\<rparr>
       \<and> px_res (proxyRequest cm env auth token up req res c) =
           px_res (proxyRequest (cm\<lparr>cm_load := \<lambda>url m body s. (Inr JNull, c')\<rparr>) env auth token up req res c)
       \<and> px_cache (proxyRequest cm env auth token up req res c) =
           px_cache (proxyRequest (cm\<lparr>cm_load := \<lambda>url m body s. (Inr JNull, c')\<rparr>) env auth token up req res c)"
proof -
  let ?miss = "cm\<lparr>cm_load := \<lambda>url m body s. (Inr JNull, c')\<rparr>"
  have thrown: "cacheMiddleware cm r res c =
      \<lparr>mw_next = True, mw_res = res\<lparr>saveToCache := Some r\<rparr>, mw_cache = c',
       mw_console = [''Cache middleware error: '' @ error]\<rparr>"
    if "originalUrl r = originalUrl req" "req_method r = req_method req" "req_body r = req_body req"
       "isApiRequest r" for r
    using that assms by (intro cacheMiddleware_load_throws) simp_all
  have missed: "cacheMiddleware ?miss r res c =
      \<lparr>mw_next = True, mw_res = res\<lparr>saveToCache := Some r\<rparr>, mw_cache = c', mw_console = []\<rparr>"
    if "originalUrl r = originalUrl req" "req_method r = req_method req" "req_body r = req_body req"
       "isApiRequest r" for r
    using that assms by (intro cacheMiddleware_load_misses[where v = JNull]) simp_all
  have a: "cacheMiddleware cm req res c =
           \<lparr>mw_next = True, mw_res = res\<lparr>saveToCache := Some req\<rparr>, mw_cache = c',
            mw_console = [''Cache middleware error: '' @ error]\<rparr>"
    using assms(2) by (intro thrown) simp_all
  have b: "cacheMiddleware ?miss req res c =
           \<lparr>mw_next = True, mw_res = res\<lparr>saveToCache := Some req\<rparr>, mw_cache = c', mw_console = []\<rparr>"
    using assms(2) by (intro missed) simp_all
  have api: "isApiRequest (req\<lparr>req_user := u\<rparr>)" for u
    using assms(2) by (simp add: isApiRequest_auth_fields)
  have c: "px_res (proxyRequest cm env auth token up req res c) =
           px_res (proxyRequest ?miss env auth token up req res c)"
    by (auto simp: proxyRequest_def Let_def stopped_def thrown missed api forward_upstream_load_irrelevant
             split: auth_result.splits sum.splits)
  have d: "px_cache (proxyRequest cm env auth token up req res c) =
           px_cache (proxyRequest ?miss env auth token up req res c)"
    by (auto simp: proxyRequest_def Let_def stopped_def thrown missed api forward_upstream_load_irrelevant
             split: auth_result.splits sum.splits)
  from a b c d show ?thesis by blast
qed

theorem load_failure_is_a_miss_witness:
  "cacheMiddleware (recording_manager (Inl ''SQLITE_BUSY'') (Inr (JBool True)))
      (example_request ''GET'' ''/alldata/vehicle/7'' ''alice'') fresh_response []
   = \<lparr>mw_next = True,
      mw_res = fresh_response\<lparr>saveToCache := Some (example_request ''GET'' ''/alldata/vehicle/7'' ''alice'')\<rparr>,
      mw_cache = [LoadCall ''/alldata/vehicle/7'' ''GET'' (JObj [])],
      mw_console = [''Cache middleware error: SQLITE_BUSY'']\<rparr>"
proof -
  let ?req = "example_request ''GET'' ''/alldata/vehicle/7'' ''alice''"
  let ?cm = "recording_manager (Inl ''SQLITE_BUSY'') (Inr (JBool True))"
  have m: "req_method ?req \<in> set [''GET'', ''POST'']" by (simp add: example_request_def)
  have a: "isApiRequest ?req"
    by (simp add: example_request_def isApiRequest_def header_includes_def startsWith_def)
  have l: "cm_load ?cm (originalUrl ?req) (req_method ?req) (req_body ?req) []
         = (Inl ''SQLITE_BUSY'', [LoadCall ''/alldata/vehicle/7'' ''GET'' (JObj [])])"
    by (simp add: recording_manager_def example_request_def)
  from load_failure_is_a_miss[OF m a l] show ?thesis by simp
qed

subsection \<open>A failing Save\<close>

text \<open>
  C6. When the write of a Save fails (disk full, or the path denied), Save logs the
  failure, returns false and leaves index and blobs as they were; the response of the
  request in flight is the one it would have been on a writable store, and its body and
  status are the same whatever the cache manager does.
\<close>

theorem failed_save_is_logged_and_harmless:
  assumes "disk_full s \<or> denied s (deriveLocation kd (normalizeUrl kd url) (deriveKey kd (request_identity kd url m body)))"
  shows "fst (save kd now url payload m body s) = False
       \<and> cache_log (snd (save kd now url payload m body s)) =
           cache_log s @ [''Failed to save cache entry '' @
             deriveLocation kd (normalizeUrl kd url) (deriveKey kd (request_identity kd url m body))]
       \<and> index (snd (save kd now url payload m body s)) = index s
       \<and> blobs (snd (save kd now url payload m body s)) = blobs s
       \<and> px_res (forward_upstream (spec_cache_manager kd now) env up req res s) =
           px_res (forward_upstream (spec_cache_manager kd now) env up req res
                     (s\<lparr>disk_full := False, denied := \<lambda>loc. False\<rparr>))
       \<and> res_sent (px_res (forward_upstream cm env up req res c)) =
           res_sent (px_res (forward_upstream (spec_cache_manager kd now) env up req res s))
       \<and> res_status (px_res (forward_upstream cm env up req res c)) =
           res_status (px_res (forward_upstream (spec_cache_manager kd now) env up req res s))"
proof -
  from save_write_failure[OF assms, of now payload]
  have "fst (save kd now url payload m body s) = False"
    and "cache_log (snd (save kd now url payload m body s)) =
           cache_log s @ [''Failed to save cache entry '' @
             deriveLocation kd (normalizeUrl kd url) (deriveKey kd (request_identity kd url m body))]"
    and "index (snd (save kd now url payload m body s)) = index s"
    and "blobs (snd (save kd now url payload m body s)) = blobs s"
    by simp_all
  moreover note forward_upstream_spec_response[of kd now env up req res s]
    forward_upstream_body_status[of cm env up req res c "spec_cache_manager kd now" s]
  ultimately show ?thesis by blast
qed

theorem failed_save_is_logged_and_harmless_witness:
  "disk_full full_store
   \<and> fst (save example_deriver 7 ''/alldata/vehicle/7'' (JObj [(''vin'', JStr ''X1'')]) ''GET'' (JObj []) full_store) = False
   \<and> index (snd (save example_deriver 7 ''/alldata/vehicle/7'' (JObj [(''vin'', JStr ''X1'')]) ''GET'' (JObj []) full_store)) = []"
proof -
  have h: "disk_full full_store" by (simp add: full_store_def empty_store_def)
  have i: "index full_store = []" by (simp add: full_store_def empty_store_def)
  from failed_save_is_logged_and_harmless[OF disjI1[OF h],
      where kd = example_deriver and now = 7 and url = "''/alldata/vehicle/7''"
        and payload = "JObj [(''vin'', JStr ''X1'')]" and m = "''GET''" and body = "JObj []"
        and env = example_env and up = "Inr not_found"
        and req = "example_request ''GET'' ''/alldata/vehicle/7'' ''alice''"
        and res = fresh_response and cm = "recording_manager (Inr JNull) (Inr (JBool True))"
        and c = "[]"] h i
  show ?thesis by simp
qed

subsection \<open>Start-up\<close>

text \<open>
  C7. The claim that a failing initialization of the cache keeps the service from
  starting does not hold: with a valid configuration the server listens although
  \<^verbatim>\<open>initializeDatabase\<close> threw.
\<close>

theorem init_failure_does_not_stop_startup:
  "st_process (server_startup None ''ops@example.com'' ''secret'' (Some ''SQLITE_CANTOPEN'')) = Listening"
  by (simp add: server_startup_def validateConfig_def Let_def)

text \<open>
  C7, as the code has it: a failure that \<^verbatim>\<open>initializeDatabase\<close> throws is caught and
  is not fatal. The process ends up where it would have without the failure: it listens
  exactly when the constructor of the cache manager returned and the configuration is
  valid, and then the failure is on the console; it exits with code 1 when the
  constructor threw or the configuration is invalid, and then nothing of the cache
  start-up is on the console.
\<close>

theorem init_failure_is_only_logged:
  "st_process (server_startup ctor_failure email password (Some error)) =
     st_process (server_startup ctor_failure email password None)
   \<and> st_process (server_startup ctor_failure email password init_failure) =
       (case ctor_failure of
          Some thrown \<Rightarrow> Exited 1
        | None \<Rightarrow> if email = [] \<or> password = [] then Exited 1 else Listening)
   \<and> st_console (server_startup ctor_failure email password (Some error)) =
       (case ctor_failure of
          Some thrown \<Rightarrow> []
        | None \<Rightarrow> if email = [] \<or> password = [] then []
                  else [''Failed to initialize cache database: '' @ error])"
  by (auto simp: server_startup_def cache_startup_def validateConfig_def Let_def
           split: sum.splits option.splits)

theorem init_failure_is_only_logged_witness:
  "st_process (server_startup None ''ops@example.com'' ''secret'' (Some ''EACCES'')) = Listening
   \<and> st_console (server_startup None ''ops@example.com'' ''secret'' (Some ''EACCES''))
       = [''Failed to initialize cache database: EACCES'']
   \<and> st_console (server_startup None [] ''secret'' (Some ''EACCES'')) = []
   \<and> st_process (server_startup (Some ''EACCES'') ''ops@example.com'' ''secret'' None) = Exited 1"
proof -
  note valid = init_failure_is_only_logged[of None "''ops@example.com''" "''secret''" "''EACCES''" "Some ''EACCES''"]
  note invalid = init_failure_is_only_logged[of None "[]" "''secret''" "''EACCES''" "Some ''EACCES''"]
  note thrown = init_failure_is_only_logged[of "Some ''EACCES''" "''ops@example.com''" "''secret''" "''EACCES''" None]
  from valid[THEN conjunct2, THEN conjunct1]
  have "st_process (server_startup None ''ops@example.com'' ''secret'' (Some ''EACCES'')) = Listening"
    by simp
  moreover from valid[THEN conjunct2, THEN conjunct2]
  have "st_console (server_startup None ''ops@example.com'' ''secret'' (Some ''EACCES''))
       = [''Failed to initialize cache database: EACCES'']"
    by simp
  moreover from invalid[THEN conjunct2, THEN conjunct2]
  have "st_console (server_startup None [] ''secret'' (Some ''EACCES'')) = []"
    by simp
  moreover from thrown[THEN conjunct2, THEN conjunct1]
  have "st_process (server_startup (Some ''EACCES'') ''ops@example.com'' ''secret'' None) = Exited 1"
    by simp
  ultimately show ?thesis by blast
qed

subsection \<open>The caller is not part of the cache identity\<close>

text \<open>
  C8. The claim that any two callers with the same original URL, method and body read
  and write the same cache entry does not hold as it stands: \<^verbatim>\<open>isApiRequest\<close> also
  reads the \<^verbatim>\<open>accept\<close> header. Of two GET requests for the same URL, the one that
  accepts JSON reaches the lookup, and the one that accepts \<^verbatim>\<open>text/html\<close> makes no call
  to the cache and gets no save hook.
\<close>

theorem same_request_different_classification:
  "originalUrl (accepting_request ''GET'' ''/vehicle/7'' ''alice'' ''application/json'')
     = originalUrl (accepting_request ''GET'' ''/vehicle/7'' ''bob'' ''text/html'')
   \<and> req_method (accepting_request ''GET'' ''/vehicle/7'' ''alice'' ''application/json'')
     = req_method (accepting_request ''GET'' ''/vehicle/7'' ''bob'' ''text/html'')
   \<and> req_body (accepting_request ''GET'' ''/vehicle/7'' ''alice'' ''application/json'')
     = req_body (accepting_request ''GET'' ''/vehicle/7'' ''bob'' ''text/html'')
   \<and> mw_cache (cacheMiddleware (recording_manager (Inr JNull) (Inr (JBool True)))
        (accepting_request ''GET'' ''/vehicle/7'' ''alice'' ''application/json'') fresh_response [])
     = [LoadCall ''/vehicle/7'' ''GET'' (JObj [])]
   \<and> saveToCache (mw_res (cacheMiddleware (recording_manager (Inr JNull) (Inr (JBool True)))
        (accepting_request ''GET'' ''/vehicle/7'' ''alice'' ''application/json'') fresh_response []))
     = Some (accepting_request ''GET'' ''/vehicle/7'' ''alice'' ''application/json'')
   \<and> mw_cache (cacheMiddleware (recording_manager (Inr JNull) (Inr (JBool True)))
        (accepting_request ''GET'' ''/vehicle/7'' ''bob'' ''text/html'') fresh_response [])
     = []
   \<and> saveToCache (mw_res (cacheMiddleware (recording_manager (Inr JNull) (Inr (JBool True)))
        (accepting_request ''GET'' ''/vehicle/7'' ''bob'' ''text/html'') fresh_response []))
     = None"
  by (simp add: cacheMiddleware_def recording_manager_def accepting_request_def isApiRequest_def
        header_includes_def startsWith_def fresh_response_def)

text \<open>
  C8, as the code has it: for two requests with the same original URL, method and body
  that are both cacheable (GET or POST, and both classified as API requests), whoever
  the callers are, the middleware calls \<^verbatim>\<open>load\<close> once, with exactly the original URL,
  the method and the body, and the result of that one lookup decides the outcome for
  both: a truthy value is sent as the answer and \<^verbatim>\<open>next()\<close> is not called; otherwise
  \<^verbatim>\<open>next()\<close> is called and the hook is attached. The hook calls \<^verbatim>\<open>save\<close> with
  exactly the original URL, the data, the method and the body. The cache state after
  each step is the one that this call left, for every cache manager.
\<close>

theorem cache_calls_ignore_the_caller:
  assumes "originalUrl r1 = originalUrl r2" and "req_method r1 = req_method r2"
    and "req_body r1 = req_body r2"
    and "req_method r1 \<in> set [''GET'', ''POST'']" and "isApiRequest r1" and "isApiRequest r2"
  shows "mw_cache (cacheMiddleware cm r1 res c) =
           snd (cm_load cm (originalUrl r1) (req_method r1) (req_body r1) c)
       \<and> mw_cache (cacheMiddleware cm r2 res c) =
           snd (cm_load cm (originalUrl r1) (req_method r1) (req_body r1) c)
       \<and> (\<forall>v. fst (cm_load cm (originalUrl r1) (req_method r1) (req_body r1) c) = Inr v \<and> truthy v \<longrightarrow>
             \<not> mw_next (cacheMiddleware cm r1 res c) \<and> \<not> mw_next (cacheMiddleware cm r2 res c)
           \<and> res_sent (mw_res (cacheMiddleware cm r1 res c)) = SentJson v
           \<and> res_sent (mw_res (cacheMiddleware cm r2 res c)) = SentJson v)
       \<and> ((\<forall>v. fst (cm_load cm (originalUrl r1) (req_method r1) (req_body r1) c) = Inr v \<longrightarrow> \<not> truthy v) \<longrightarrow>
             mw_next (cacheMiddleware cm r1 res c) \<and> mw_next (cacheMiddleware cm r2 res c)
           \<and> mw_res (cacheMiddleware cm r1 res c) = res\<lparr>saveToCache := Some r1\<rparr>
           \<and> mw_res (cacheMiddleware cm r2 res c) = res\<lparr>saveToCache := Some r2\<rparr>)
       \<and> fst (snd (call_saveToCache cm r1 data res' c')) =
           snd (cm_save cm (originalUrl r1) data (req_method r1) (req_body r1) c')
       \<and> fst (snd (call_saveToCache cm r2 data res' c')) =
           snd (cm_save cm (originalUrl r1) data (req_method r1) (req_body r1) c')
       \<and> call_saveToCache cm r1 data res' c' = call_saveToCache cm r2 data res' c'"
proof -
  let ?answer = "cm_load cm (originalUrl r1) (req_method r1) (req_body r1) c"
  have cacheable: "req_method r2 \<in> set [''GET'', ''POST'']"
    using assms(2,4) by simp
  have one: "cacheMiddleware cm r1 res c =
      (case fst ?answer of
         Inr v \<Rightarrow>
           if truthy v
           then \<lparr>mw_next = False,
                 mw_res = res_json v
                   (setHeader ''Content-Type'' ''application/json''
                     (setHeader ''X-Cache-From'' ''SQLite-Index''
                       (setHeader ''X-Cache'' ''HIT'' res))),
                 mw_cache = snd ?answer,
                 mw_console = [''Cache hit for '' @ req_method r1 @ '': '' @ originalUrl r1]\<rparr>
           else \<lparr>mw_next = True, mw_res = res\<lparr>saveToCache := Some r1\<rparr>,
                 mw_cache = snd ?answer, mw_console = []\<rparr>
       | Inl error \<Rightarrow>
           \<lparr>mw_next = True, mw_res = res\<lparr>saveToCache := Some r1\<rparr>,
            mw_cache = snd ?answer, mw_console = [''Cache middleware error: '' @ error]\<rparr>)"
    using assms(4,5) by (simp add: cacheMiddleware_def split: prod.splits sum.splits)
  have two: "cacheMiddleware cm r2 res c =
      (case fst ?answer of
         Inr v \<Rightarrow>
           if truthy v
           then \<lparr>mw_next = False,
                 mw_res = res_json v
                   (setHeader ''Content-Type'' ''application/json''
                     (setHeader ''X-Cache-From'' ''SQLite-Index''
                       (setHeader ''X-Cache'' ''HIT'' res))),
                 mw_cache = snd ?answer,
                 mw_console = [''Cache hit for '' @ req_method r1 @ '': '' @ originalUrl r1]\<rparr>
           else \<lparr>mw_next = True, mw_res = res\<lparr>saveToCache := Some r2\<rparr>,
                 mw_cache = snd ?answer, mw_console = []\<rparr>
       | Inl error \<Rightarrow>
           \<lparr>mw_next = True, mw_res = res\<lparr>saveToCache := Some r2\<rparr>,
            mw_cache = snd ?answer, mw_console = [''Cache middleware error: '' @ error]\<rparr>)"
    using cacheable assms(6) assms(1-3)[symmetric]
    by (simp add: cacheMiddleware_def split: prod.splits sum.splits)
  have load1: "mw_cache (cacheMiddleware cm r1 res c) = snd ?answer"
    unfolding one by (simp split: sum.splits)
  have load2: "mw_cache (cacheMiddleware cm r2 res c) = snd ?answer"
    unfolding two by (simp split: sum.splits)
  have hit: "\<not> mw_next (cacheMiddleware cm r1 res c) \<and> \<not> mw_next (cacheMiddleware cm r2 res c)
      \<and> res_sent (mw_res (cacheMiddleware cm r1 res c)) = SentJson v
      \<and> res_sent (mw_res (cacheMiddleware cm r2 res c)) = SentJson v"
    if "fst ?answer = Inr v \<and> truthy v" for v
    unfolding one two using that by (simp add: res_json_def)
  have miss: "mw_next (cacheMiddleware cm r1 res c) \<and> mw_next (cacheMiddleware cm r2 res c)
      \<and> mw_res (cacheMiddleware cm r1 res c) = res\<lparr>saveToCache := Some r1\<rparr>
      \<and> mw_res (cacheMiddleware cm r2 res c) = res\<lparr>saveToCache := Some r2\<rparr>"
    if "\<forall>v. fst ?answer = Inr v \<longrightarrow> \<not> truthy v"
    unfolding one two using that by (cases "fst ?answer") simp_all
  have save1: "fst (snd (call_saveToCache cm r1 data res' c')) =
      snd (cm_save cm (originalUrl r1) data (req_method r1) (req_body r1) c')"
    by (simp add: call_saveToCache_def split: prod.splits sum.splits)
  have same: "call_saveToCache cm r1 data res' c' = call_saveToCache cm r2 data res' c'"
    using assms(1-3) by (simp add: call_saveToCache_def)
  from save1 same have save2: "fst (snd (call_saveToCache cm r2 data res' c')) =
      snd (cm_save cm (originalUrl r1) data (req_method r1) (req_body r1) c')"
    by simp
  from load1 load2 hit miss save1 save2 same show ?thesis by blast
qed

theorem cache_calls_ignore_the_caller_witness:
  "mw_cache (cacheMiddleware (recording_manager (Inr (JStr ''cached'')) (Inr (JBool True)))
      (example_request ''GET'' ''/alldata/vehicle/7'' ''alice'') fresh_response [])
     = [LoadCall ''/alldata/vehicle/7'' ''GET'' (JObj [])]
   \<and> mw_cache (cacheMiddleware (recording_manager (Inr (JStr ''cached'')) (Inr (JBool True)))
      (example_request ''GET'' ''/alldata/vehicle/7'' ''bob'') fresh_response [])
     = [LoadCall ''/alldata/vehicle/7'' ''GET'' (JObj [])]
   \<and> res_sent (mw_res (cacheMiddleware (recording_manager (Inr (JStr ''cached'')) (Inr (JBool True)))
      (example_request ''GET'' ''/alldata/vehicle/7'' ''bob'') fresh_response [])) = SentJson (JStr ''cached'')
   \<and> fst (snd (call_saveToCache (recording_manager (Inr (JStr ''cached'')) (Inr (JBool True)))
        (example_request ''GET'' ''/alldata/vehicle/7'' ''bob'') (JStr ''payload'') fresh_response []))
     = [SaveCall ''/alldata/vehicle/7'' (JStr ''payload'') ''GET'' (JObj [])]
   \<and> req_user (example_request ''GET'' ''/alldata/vehicle/7'' ''alice'')
       \<noteq> req_user (example_request ''GET'' ''/alldata/vehicle/7'' ''bob'')"
proof -
  let ?a = "example_request ''GET'' ''/alldata/vehicle/7'' ''alice''"
  let ?b = "example_request ''GET'' ''/alldata/vehicle/7'' ''bob''"
  let ?cm = "recording_manager (Inr (JStr ''cached'')) (Inr (JBool True))"
  have 1: "originalUrl ?a = originalUrl ?b" and 2: "req_method ?a = req_method ?b"
    and 3: "req_body ?a = req_body ?b" and 4: "req_method ?a \<in> set [''GET'', ''POST'']"
    by (simp_all add: example_request_def)
  have 5: "isApiRequest ?a" and 6: "isApiRequest ?b"
    by (simp_all add: example_request_def isApiRequest_def header_includes_def startsWith_def)
  have 7: "req_user ?a \<noteq> req_user ?b" by (simp add: example_request_def)
  have l: "cm_load ?cm (originalUrl ?a) (req_method ?a) (req_body ?a) []
         = (Inr (JStr ''cached''), [LoadCall ''/alldata/vehicle/7'' ''GET'' (JObj [])])"
    by (simp add: recording_manager_def example_request_def)
  have s: "cm_save ?cm (originalUrl ?a) (JStr ''payload'') (req_method ?a) (req_body ?a) []
         = (Inr (JBool True), [SaveCall ''/alldata/vehicle/7'' (JStr ''payload'') ''GET'' (JObj [])])"
    by (simp add: recording_manager_def example_request_def)
  note inst = cache_calls_ignore_the_caller[OF 1 2 3 4 5 6,
      where cm = ?cm and res = fresh_response and c = "[]" and data = "JStr ''payload''"
        and res' = fresh_response and c' = "[]"]
  from inst l s 7 show ?thesis by simp
qed

subsection \<open>Requests that are not cacheable\<close>

text \<open>
  C9. For a request whose method is neither GET nor POST, or that is not classified as
  an API request, the middleware calls \<^verbatim>\<open>next()\<close> with the response and the cache
  untouched: no lookup, no hook, nothing served; and the handler that follows leaves the
  cache as it was.
\<close>

theorem uncacheable_request_bypasses_cache:
  assumes "req_method req \<notin> set [''GET'', ''POST''] \<or> \<not> isApiRequest req"
  shows "cacheMiddleware cm req res c = \<lparr>mw_next = True, mw_res = res, mw_cache = c, mw_console = []\<rparr>
       \<and> (saveToCache res = None \<longrightarrow>
            px_cache (proxyRequest cm env auth token up req res c) = c \<and>
            px_cache (proxied_v1 cm env auth token up req res c) = c)"
proof -
  have mw: "cacheMiddleware cm req res c = \<lparr>mw_next = True, mw_res = res, mw_cache = c, mw_console = []\<rparr>"
    using assms by (rule cacheMiddleware_skip)
  have mw1: "cacheMiddleware cm (req\<lparr>req_user := u\<rparr>) res c
           = \<lparr>mw_next = True, mw_res = res, mw_cache = c, mw_console = []\<rparr>" for u
    using assms by (intro cacheMiddleware_skip) (simp add: isApiRequest_auth_fields)
  have "px_cache (proxyRequest cm env auth token up req res c) = c" if "saveToCache res = None"
    using that
    by (auto simp: proxyRequest_def Let_def mw1 stopped_def forward_upstream_no_hook
             split: auth_result.splits sum.splits)
  moreover have "px_cache (proxied_v1 cm env auth token up req res c) = c" if "saveToCache res = None"
    using that
    by (auto simp: proxied_v1_def proxyRequest_v1_def Let_def mw stopped_def forward_upstream_no_hook
             split: auth_result.splits sum.splits)
  ultimately show ?thesis using mw by blast
qed

theorem uncacheable_request_bypasses_cache_witness:
  "req_method (example_request ''DELETE'' ''/alldata/vehicle/7'' ''alice'') \<notin> set [''GET'', ''POST'']
   \<and> cacheMiddleware (recording_manager (Inr (JStr ''cached'')) (Inr (JBool True)))
        (example_request ''DELETE'' ''/alldata/vehicle/7'' ''alice'') fresh_response []
      = \<lparr>mw_next = True, mw_res = fresh_response, mw_cache = [], mw_console = []\<rparr>
   \<and> px_cache (proxyRequest (recording_manager (Inr (JStr ''cached'')) (Inr (JBool True))) example_env
        (AuthOk ''alice'') (Inr ''upstream-token'') (Inr not_found)
        (example_request ''DELETE'' ''/alldata/vehicle/7'' ''alice'') fresh_response []) = []"
proof -
  have h: "req_method (example_request ''DELETE'' ''/alldata/vehicle/7'' ''alice'') \<notin> set [''GET'', ''POST'']"
    by (simp add: example_request_def)
  have n: "saveToCache fresh_response = None" by (simp add: fresh_response_def)
  from uncacheable_request_bypasses_cache[OF disjI1[OF h], of _ fresh_response "[]"] n h
  show ?thesis by blast
qed

subsection \<open>Only status 200 is saved\<close>

text \<open>
  C10. When the upstream status is not 200, forwarding the answer leaves the cache as
  it was: at the end of \<^verbatim>\<open>proxyRequest\<close>, in both revisions of the server, the cache is
  in the state the lookup of the middleware left it in.
\<close>

theorem only_status_200_is_saved:
  assumes "up_status response \<noteq> 200"
  shows "px_cache (forward_upstream cm env (Inr response) req res c) = c
       \<and> px_cache (proxyRequest cm env auth token (Inr response) req res c) =
           (case auth of
              AuthOk email \<Rightarrow>
                (case token of
                   Inr tok \<Rightarrow> if tok = [] then c
                              else mw_cache (cacheMiddleware cm (req\<lparr>req_user := Some email\<rparr>) res c)
                 | Inl error \<Rightarrow> c)
            | AuthNextErr err \<Rightarrow> c
            | AuthRejected status body \<Rightarrow> c)
       \<and> px_cache (proxied_v1 cm env auth token (Inr response) req res c) = mw_cache (cacheMiddleware cm req res c)"
  using assms
  by (auto simp: proxyRequest_def proxied_v1_def proxyRequest_v1_def Let_def stopped_def forward_upstream_not_200
           split: auth_result.splits sum.splits)

theorem only_status_200_is_saved_witness:
  "up_status not_found \<noteq> 200
   \<and> px_cache (proxyRequest (recording_manager (Inr JNull) (Inr (JBool True))) example_env
        (AuthOk ''alice'') (Inr ''upstream-token'') (Inr not_found)
        (example_request ''GET'' ''/alldata/vehicle/7'' ''alice'') fresh_response [])
      = [LoadCall ''/alldata/vehicle/7'' ''GET'' (JObj [])]"
proof -
  have h: "up_status not_found \<noteq> 200" by (simp add: not_found_def)
  have "mw_cache (cacheMiddleware (recording_manager (Inr JNull) (Inr (JBool True)))
          (example_request ''GET'' ''/alldata/vehicle/7'' ''alice''\<lparr>req_user := Some ''alice''\<rparr>)
          fresh_response []) = [LoadCall ''/alldata/vehicle/7'' ''GET'' (JObj [])]"
    by (simp add: cacheMiddleware_def recording_manager_def example_request_def isApiRequest_def
          header_includes_def startsWith_def)
  with only_status_200_is_saved[OF h, of "recording_manager (Inr JNull) (Inr (JBool True))" example_env
      "example_request ''GET'' ''/alldata/vehicle/7'' ''alice''" fresh_response "[]" "AuthOk ''alice''" "Inr ''upstream-token''"]
    h show ?thesis by simp
qed

end
